theory Spec2Isabelle
  imports Complex_Main "HOL-Library.Word"
begin

section \<open>JavaScript values used by js/sam.js\<close>

text \<open>
  Bytes of a \<^verbatim>\<open>Uint8ClampedArray\<close> / \<^verbatim>\<open>Uint8Array\<close> are 8-bit words.  Reading a typed
  array outside its length gives \<^verbatim>\<open>undefined\<close> in JavaScript: the read is an option,
  \<open>None\<close> standing for \<^verbatim>\<open>undefined\<close>.  Writing outside the length is silently ignored,
  which is what \<open>xs[i := v]\<close> does in HOL.
\<close>

type_synonym byte = "8 word"

definition js_get :: "'a list \<Rightarrow> nat \<Rightarrow> 'a option" where
  "js_get xs i = (if i < length xs then Some (xs ! i) else None)"

text \<open>Storing into a \<^verbatim>\<open>Uint8ClampedArray\<close>: \<^verbatim>\<open>undefined\<close> becomes NaN, stored as 0.\<close>

definition u8_store :: "byte option \<Rightarrow> byte" where
  "u8_store v = (case v of None \<Rightarrow> 0 | Some b \<Rightarrow> b)"

section \<open>resampleMaskTo (js/sam.js, lines 138-148)\<close>

text \<open>
  \<^verbatim>\<open>Math.floor(xx * w / tw)\<close> on non-negative integers below \<open>2^53\<close> is the integer
  quotient: the product is exact and a correctly rounded quotient of a non-integer
  ratio cannot reach the next integer.
\<close>

definition resample_sx :: "nat \<Rightarrow> nat \<Rightarrow> nat \<Rightarrow> nat" where
  "resample_sx xx w tw = (xx * w) div tw"

definition resample_sy :: "nat \<Rightarrow> nat \<Rightarrow> nat \<Rightarrow> nat" where
  "resample_sy yy h th = (yy * h) div th"

definition resampleMaskTo :: "byte list \<Rightarrow> nat \<Rightarrow> nat \<Rightarrow> nat \<Rightarrow> nat \<Rightarrow> byte list" where
  "resampleMaskTo msk w h tw th =
     fold (\<lambda>yy out.
       fold (\<lambda>xx out.
         let sx = resample_sx xx w tw;
             sy = resample_sy yy h th
         in out[yy * tw + xx := u8_store (js_get msk (sy * w + sx))])
       [0..<tw] out)
     [0..<th] (replicate (tw * th) 0)"

section \<open>The canvas and the crop (js/sam.js, lines 45-54)\<close>

text \<open>
  A raster is a canvas: width, height and row-major RGBA bytes.  The bounding box holds
  JavaScript numbers; finite doubles are rationals and \<^verbatim>\<open>Math.floor\<close> is exact on them.
\<close>

record raster =
  rwidth :: nat
  rheight :: nat
  rdata :: "byte list"

record box =
  box_x :: rat
  box_y :: rat
  box_w :: rat
  box_h :: rat

text \<open>
  The 2D context of the browser is not code of this repository.  \<^verbatim>\<open>drawImage\<close> with equal
  source and destination sizes copies the source rectangle pixel by pixel, clipped to the
  source canvas; the destination canvas starts as transparent black.
\<close>

definition canvas_pixel :: "raster \<Rightarrow> nat \<Rightarrow> nat \<Rightarrow> byte list" where
  "canvas_pixel src x y =
     (if x < rwidth src \<and> y < rheight src
      then map (\<lambda>c. u8_store (js_get (rdata src) ((y * rwidth src + x) * 4 + c))) [0, 1, 2, 3]
      else [0, 0, 0, 0])"

definition drawImage_crop :: "raster \<Rightarrow> nat \<Rightarrow> nat \<Rightarrow> nat \<Rightarrow> nat \<Rightarrow> raster" where
  "drawImage_crop src sx sy sw sh =
     \<lparr>rwidth = sw, rheight = sh,
      rdata = concat (map (\<lambda>i. canvas_pixel src (sx + i mod sw) (sy + i div sw)) [0..<sw * sh])\<rparr>"

section \<open>The threshold classifier (js/sam.js, lines 120-134)\<close>

text \<open>
  A comparison with \<^verbatim>\<open>undefined\<close> (a read outside the buffer) is false in JavaScript.
  The sums \<^verbatim>\<open>r + 30\<close> and \<^verbatim>\<open>g + 20\<close> are sums of numbers, they do not wrap.
\<close>

definition isBlue :: "byte option \<Rightarrow> byte option \<Rightarrow> byte option \<Rightarrow> bool" where
  "isBlue r g b =
     (case (r, g, b) of
        (Some r, Some g, Some b) \<Rightarrow> unat b > 100 \<and> unat b > unat r + 30 \<and> unat b > unat g + 20
      | _ \<Rightarrow> False)"

definition thresholdMask :: "byte list \<Rightarrow> nat \<Rightarrow> nat \<Rightarrow> byte list" where
  "thresholdMask cropData sw sh =
     fold (\<lambda>y m.
       fold (\<lambda>x m.
         let idx = (y * sw + x) * 4;
             r = js_get cropData idx;
             g = js_get cropData (idx + 1);
             b = js_get cropData (idx + 2)
         in m[y * sw + x := (if isBlue r g b then 255 else 0)])
       [0..<sw] m)
     [0..<sh] (replicate (sw * sh) 0)"

section \<open>The model inference strategy (js/sam.js, lines 57-118)\<close>

text \<open>
  Float values: a finite value is a rational (the rounding to 32 bits is not modelled),
  with the infinities and NaN beside it.
\<close>

datatype f32 = Num rat | PosInf | NegInf | NaN

text \<open>\<^verbatim>\<open>data[i] / 255.0\<close>: \<^verbatim>\<open>undefined / 255\<close> is NaN.\<close>

definition chan :: "byte option \<Rightarrow> f32" where
  "chan v = (case v of None \<Rightarrow> NaN | Some b \<Rightarrow> Num (of_nat (unat b) / 255))"

text \<open>\<^verbatim>\<open>val > 0.5\<close>: false for NaN and for \<^verbatim>\<open>undefined\<close>.\<close>

definition gt_half :: "f32 option \<Rightarrow> bool" where
  "gt_half v = (case v of Some (Num r) \<Rightarrow> r > 1 / 2 | Some PosInf \<Rightarrow> True | _ \<Rightarrow> False)"

definition MODEL_SIZE :: nat where
  "MODEL_SIZE = 1024"

text \<open>
  Lines 73-78: the float buffer of \<open>S * S * 3\<close> zeros, filled by the loop over the pixels
  \<open>p\<close> of the image data (\<open>i = 4 * p\<close> runs while \<open>i < data.length\<close>).
\<close>

definition floatTensorData :: "nat \<Rightarrow> byte list \<Rightarrow> f32 list" where
  "floatTensorData S imgData =
     fold (\<lambda>p floatData.
        floatData[p * 3 + 0 := chan (js_get imgData (p * 4)),
                  p * 3 + 1 := chan (js_get imgData (p * 4 + 1)),
                  p * 3 + 2 := chan (js_get imgData (p * 4 + 2))])
       [0..<(length imgData + 3) div 4] (replicate (S * S * 3) (Num 0))"

datatype jserr = JsError string

record tensor =
  tdata :: "f32 list"
  tdims :: "nat list"

text \<open>
  The inference session of the runtime: its declared input names, if any, and \<^verbatim>\<open>run\<close>,
  which is given the single feed \<open>name \<mapsto> tensor\<close> and returns the named outputs in
  key order, or throws.
\<close>

record session =
  sess_inputNames :: "string list option"
  sess_run :: "string \<Rightarrow> tensor \<Rightarrow> jserr + (string \<times> tensor) list"

text \<open>
  What the browser and the runtime do, and where they may throw.  In the model branch:
  scaling the crop to the square model size (the interpolation is the browser's) and
  \<^verbatim>\<open>new ort.Tensor\<close>.  Outside the \<^verbatim>\<open>try\<close>: the canvas calls of lines 50-54 (creating
  the crop canvas, getting its context, \<^verbatim>\<open>drawImage\<close>) and \<^verbatim>\<open>getImageData\<close> of line 121,
  each with the error it throws, if any.  \<open>env_maxArrayLength\<close> is the longest typed array
  the engine allocates.
\<close>

record env =
  env_resize :: "raster \<Rightarrow> nat \<Rightarrow> jserr + byte list"
  env_Tensor :: "f32 list \<Rightarrow> nat list \<Rightarrow> jserr + tensor"
  env_drawCrop :: "raster \<Rightarrow> nat \<Rightarrow> nat \<Rightarrow> nat \<Rightarrow> nat \<Rightarrow> jserr option"
  env_getImageData :: "nat \<Rightarrow> nat \<Rightarrow> jserr option"
  env_maxArrayLength :: nat

text \<open>
  \<^verbatim>\<open>new Uint8ClampedArray(n)\<close> and \<^verbatim>\<open>new Float32Array(n)\<close> throw a RangeError when \<open>n\<close> is
  above \<open>2^53 - 1\<close> (the language's limit for a length) or above what the engine
  allocates; otherwise the array holds \<open>n\<close> zeros.
\<close>

definition arrayLimit :: "env \<Rightarrow> nat" where
  "arrayLimit e = min (env_maxArrayLength e) (2 ^ 53 - 1)"

definition new_Uint8ClampedArray :: "env \<Rightarrow> nat \<Rightarrow> jserr + byte list" where
  "new_Uint8ClampedArray e n =
     (if n > arrayLimit e then Inl (JsError ''RangeError'') else Inr (replicate n 0))"

record modstate =
  modelReady :: bool
  ortSession :: "session option"

record segresult =
  res_mask :: "byte list"
  res_width :: nat
  res_height :: nat

text \<open>\<^verbatim>\<open>dims[dims.length - k]\<close>: a negative index reads \<^verbatim>\<open>undefined\<close>.\<close>

definition js_get_int :: "'a list \<Rightarrow> int \<Rightarrow> 'a option" where
  "js_get_int xs i = (if 0 \<le> i \<and> i < int (length xs) then Some (xs ! nat i) else None)"

text \<open>
  Lines 92-106.  With no output at all \<^verbatim>\<open>outTensor\<close> is \<^verbatim>\<open>undefined\<close> and \<^verbatim>\<open>outTensor.data\<close>
  throws.  With fewer than two dimensions \<^verbatim>\<open>ow * oh\<close> is NaN: the mask gets length 0, the
  threshold loop does not run, and in \<^verbatim>\<open>resampleMaskTo\<close> every source index is NaN, every
  read \<^verbatim>\<open>undefined\<close>, every output byte 0.  The allocations of line 99 (\<open>ow * oh\<close> bytes)
  and of line 139 (\<open>sw * sh\<close> bytes, the first statement of \<^verbatim>\<open>resampleMaskTo\<close>) may throw.
\<close>

definition maskFromOutput ::
    "env \<Rightarrow> (string \<times> tensor) list \<Rightarrow> nat \<Rightarrow> nat \<Rightarrow> jserr + segresult" where
  "maskFromOutput e results sw sh =
     (case results of
        [] \<Rightarrow> Inl (JsError ''TypeError'')
      | (outName, outTensor) # _ \<Rightarrow>
          let outData = tdata outTensor;
              ow = js_get_int (tdims outTensor) (int (length (tdims outTensor)) - 1);
              oh = js_get_int (tdims outTensor) (int (length (tdims outTensor)) - 2)
          in (case (ow, oh) of
                (Some ow, Some oh) \<Rightarrow>
                  (case new_Uint8ClampedArray e (ow * oh) of
                     Inl err \<Rightarrow> Inl err
                   | Inr mask0 \<Rightarrow>
                       (case new_Uint8ClampedArray e (sw * sh) of
                          Inl err \<Rightarrow> Inl err
                        | Inr out0 \<Rightarrow>
                            Inr \<lparr>res_mask =
                                   resampleMaskTo
                                     (map (\<lambda>i. if gt_half (js_get outData i) then 255 else 0)
                                        [0..<ow * oh])
                                     ow oh sw sh,
                                 res_width = sw, res_height = sh\<rparr>))
              | _ \<Rightarrow>
                  (case new_Uint8ClampedArray e (sw * sh) of
                     Inl err \<Rightarrow> Inl err
                   | Inr out0 \<Rightarrow> Inr \<lparr>res_mask = out0, res_width = sw, res_height = sh\<rparr>)))"

text \<open>Lines 86-112: the first input name whose attempt does not throw wins.\<close>

fun tryInputNames ::
    "env \<Rightarrow> session \<Rightarrow> tensor \<Rightarrow> nat \<Rightarrow> nat \<Rightarrow> string list \<Rightarrow> segresult option" where
  "tryInputNames e sess inputTensor sw sh [] = None"
| "tryInputNames e sess inputTensor sw sh (name # names) =
     (case (case sess_run sess name inputTensor of
              Inl runErr \<Rightarrow> Inl runErr
            | Inr results \<Rightarrow> maskFromOutput e results sw sh) of
        Inr r \<Rightarrow> Some r
      | Inl runErr \<Rightarrow> tryInputNames e sess inputTensor sw sh names)"

definition inputNamesToTry :: "session \<Rightarrow> string list" where
  "inputNamesToTry sess =
     (case sess_inputNames sess of
        Some ns \<Rightarrow> ns
      | None \<Rightarrow> [''input'', ''images'', ''image'', ''input_image''])"

text \<open>Lines 58-114, the body of the outer \<^verbatim>\<open>try\<close>: \<open>Inr None\<close> is reaching line 114.\<close>

definition modelInference ::
    "env \<Rightarrow> session \<Rightarrow> raster \<Rightarrow> nat \<Rightarrow> nat \<Rightarrow> jserr + segresult option" where
  "modelInference e sess crop sw sh =
     (case env_resize e crop MODEL_SIZE of
        Inl err \<Rightarrow> Inl err
      | Inr imgData \<Rightarrow>
          if MODEL_SIZE * MODEL_SIZE * 3 > arrayLimit e then Inl (JsError ''RangeError'')
          else
            (case env_Tensor e (floatTensorData MODEL_SIZE imgData)
                    [1, 3, MODEL_SIZE, MODEL_SIZE] of
               Inl err \<Rightarrow> Inl err
             | Inr inputTensor \<Rightarrow>
                 Inr (tryInputNames e sess inputTensor sw sh (inputNamesToTry sess))))"

section \<open>segmentBoxOnCanvas (js/sam.js, lines 43-135)\<close>

text \<open>Lines 45-48: the clamped crop rectangle.\<close>

definition crop_sx :: "box \<Rightarrow> nat" where
  "crop_sx b = nat (max 0 \<lfloor>box_x b\<rfloor>)"

definition crop_sy :: "box \<Rightarrow> nat" where
  "crop_sy b = nat (max 0 \<lfloor>box_y b\<rfloor>)"

definition crop_sw :: "box \<Rightarrow> nat" where
  "crop_sw b = nat (max 1 \<lfloor>box_w b\<rfloor>)"

definition crop_sh :: "box \<Rightarrow> nat" where
  "crop_sh b = nat (max 1 \<lfloor>box_h b\<rfloor>)"

text \<open>Lines 50-54: the temporary canvas holding the crop.\<close>

definition extractCrop :: "raster \<Rightarrow> box \<Rightarrow> raster" where
  "extractCrop sourceCanvas b =
     drawImage_crop sourceCanvas (crop_sx b) (crop_sy b) (crop_sw b) (crop_sh b)"

text \<open>
  The result is a sum, \<open>Inl\<close> an error thrown to the caller.  An error inside the outer
  \<^verbatim>\<open>try\<close> (lines 58-117) is caught and execution goes on with the fallback; so does
  reaching line 114 after every input name has failed.  The canvas calls of lines 50-54
  and the fallback's \<^verbatim>\<open>getImageData\<close> (line 121) and \<^verbatim>\<open>new Uint8ClampedArray(sw * sh)\<close>
  (line 122) are outside the \<^verbatim>\<open>try\<close>: what they throw reaches the caller.  The array of
  line 122 is the zero-filled buffer \<open>thresholdMask\<close> starts from.
\<close>

definition segmentBoxOnCanvas :: "env \<Rightarrow> modstate \<Rightarrow> raster \<Rightarrow> box \<Rightarrow> jserr + segresult" where
  "segmentBoxOnCanvas e st sourceCanvas b =
     (let sx = crop_sx b;
          sy = crop_sy b;
          sw = crop_sw b;
          sh = crop_sh b
      in case env_drawCrop e sourceCanvas sx sy sw sh of
           Some err \<Rightarrow> Inl err
         | None \<Rightarrow>
             let crop = extractCrop sourceCanvas b;
                 viaModel =
                   (if modelReady st then
                      (case ortSession st of
                         None \<Rightarrow> None
                       | Some sess \<Rightarrow>
                           (case modelInference e sess crop sw sh of
                              Inl err \<Rightarrow> None
                            | Inr r \<Rightarrow> r))
                    else None)
             in case viaModel of
                  Some r \<Rightarrow> Inr r
                | None \<Rightarrow>
                    (case env_getImageData e sw sh of
                       Some err \<Rightarrow> Inl err
                     | None \<Rightarrow>
                         (case new_Uint8ClampedArray e (sw * sh) of
                            Inl err \<Rightarrow> Inl err
                          | Inr mask0 \<Rightarrow>
                              Inr \<lparr>res_mask = thresholdMask (rdata crop) sw sh,
                                   res_width = sw, res_height = sh\<rparr>)))"

text \<open>
  The statements outside the \<^verbatim>\<open>try\<close> do not throw: the canvas calls succeed and the
  crop's pixel count is a length the engine allocates.
\<close>

definition fallbackSucceeds :: "env \<Rightarrow> raster \<Rightarrow> box \<Rightarrow> bool" where
  "fallbackSucceeds e sourceCanvas b \<longleftrightarrow>
     env_drawCrop e sourceCanvas (crop_sx b) (crop_sy b) (crop_sw b) (crop_sh b) = None \<and>
     env_getImageData e (crop_sw b) (crop_sh b) = None \<and>
     crop_sw b * crop_sh b \<le> arrayLimit e"

text \<open>The Mask invariant of a result for a crop of \<open>sw\<close> by \<open>sh\<close> pixels.\<close>

definition mask_ok :: "nat \<Rightarrow> nat \<Rightarrow> segresult \<Rightarrow> bool" where
  "mask_ok sw sh r \<longleftrightarrow>
     res_width r = sw \<and> res_height r = sh \<and> length (res_mask r) = sw * sh \<and>
     list_all (\<lambda>v. v = 0 \<or> v = 255) (res_mask r)"

section \<open>maskToGeoJSON (js/sam.js, lines 186-257)\<close>

datatype geometry = Polygon "(int \<times> int) list list"

datatype feature = Feature geometry

datatype geojson = FeatureCollection "feature list"

definition js_truthy :: "byte option \<Rightarrow> bool" where
  "js_truthy v = (case v of None \<Rightarrow> False | Some b \<Rightarrow> b \<noteq> 0)"

definition binOf :: "byte list \<Rightarrow> nat \<Rightarrow> nat \<Rightarrow> byte list" where
  "binOf msk width height =
     map (\<lambda>i. if js_truthy (js_get msk i) then 1 else 0) [0..<width * height]"

definition findStart :: "byte list \<Rightarrow> nat option" where
  "findStart bin = find (\<lambda>i. js_truthy (js_get bin i)) [0..<length bin]"

definition directions :: "(int \<times> int) list" where
  "directions = [(-1, 0), (-1, -1), (0, -1), (1, -1), (1, 0), (1, 1), (0, 1), (-1, 1)]"

definition idxToXY :: "nat \<Rightarrow> nat \<Rightarrow> int \<times> int" where
  "idxToXY width i = (int (i mod width), int (i div width))"

text \<open>Lines 218-232: the search over \<open>d = 0..7\<close>, leaving at the first foreground neighbour.\<close>

fun findNext :: "byte list \<Rightarrow> nat \<Rightarrow> nat \<Rightarrow> int \<Rightarrow> int \<Rightarrow> nat \<Rightarrow> nat list \<Rightarrow> (nat \<times> nat) option" where
  "findNext bin width height cx cy prevDir [] = None"
| "findNext bin width height cx cy prevDir (d # ds) =
     (let di = (prevDir + 7 + d) mod 8;
          nx = cx + fst (directions ! di);
          ny = cy + snd (directions ! di)
      in if nx \<ge> 0 \<and> nx < int width \<and> ny \<ge> 0 \<and> ny < int height
            \<and> js_truthy (js_get bin (nat (ny * int width + nx)))
         then Some (nat (ny * int width + nx), di)
         else findNext bin width height cx cy prevDir ds)"

record tstate =
  t_curr :: nat
  t_prevDir :: nat
  t_coords :: "(int \<times> int) list"
  t_done :: bool
  t_loopGuard :: nat

text \<open>Lines 214-238: one run of the loop body.\<close>

definition traceStep :: "byte list \<Rightarrow> nat \<Rightarrow> nat \<Rightarrow> nat \<Rightarrow> int \<Rightarrow> int \<Rightarrow> tstate \<Rightarrow> tstate" where
  "traceStep bin width height start offsetX offsetY s =
     (let cx = fst (idxToXY width (t_curr s));
          cy = snd (idxToXY width (t_curr s));
          s1 = s\<lparr>t_coords := t_coords s @ [(cx + offsetX, cy + offsetY)]\<rparr>;
          s2 = (case findNext bin width height cx cy (t_prevDir s1) [0..<8] of
                  Some (ni, di) \<Rightarrow> s1\<lparr>t_curr := ni, t_prevDir := di\<rparr>
                | None \<Rightarrow> s1\<lparr>t_done := True\<rparr>)
      in if t_curr s2 = start \<and> length (t_coords s2) > 20 then s2\<lparr>t_done := True\<rparr> else s2)"

text \<open>
  Line 213, \<^verbatim>\<open>while (!done && loopGuard++ < 1000000)\<close>: the guard is counted up whenever
  it is compared, also by the comparison that fails.
\<close>

function traceLoop :: "byte list \<Rightarrow> nat \<Rightarrow> nat \<Rightarrow> nat \<Rightarrow> int \<Rightarrow> int \<Rightarrow> tstate \<Rightarrow> tstate" where
  "traceLoop bin width height start offsetX offsetY s =
     (if t_done s then s
      else if t_loopGuard s < 1000000
        then traceLoop bin width height start offsetX offsetY
               (traceStep bin width height start offsetX offsetY
                  (s\<lparr>t_loopGuard := t_loopGuard s + 1\<rparr>))
        else s\<lparr>t_loopGuard := t_loopGuard s + 1\<rparr>)"
  by pat_completeness auto
termination
  by (relation "measure (\<lambda>(bin, width, height, start, offsetX, offsetY, s). 1000000 - t_loopGuard s)")
     (auto simp: traceStep_def Let_def split: option.splits)

text \<open>The start state of the loop (lines 209-212).\<close>

definition traceInit :: "nat \<Rightarrow> tstate" where
  "traceInit start =
     \<lparr>t_curr = start, t_prevDir = 0, t_coords = [], t_done = False, t_loopGuard = 0\<rparr>"

definition maskToGeoJSON :: "byte list \<Rightarrow> nat \<Rightarrow> nat \<Rightarrow> int \<Rightarrow> int \<Rightarrow> geojson" where
  "maskToGeoJSON msk width height offsetX offsetY =
     (let bin = binOf msk width height
      in case findStart bin of
           None \<Rightarrow> FeatureCollection []
         | Some start \<Rightarrow>
             let s = traceLoop bin width height start offsetX offsetY (traceInit start);
                 polygon = [map (\<lambda>pt. (fst pt, snd pt)) (t_coords s)]
             in FeatureCollection [Feature (Polygon polygon)])"

text \<open>The rings of a feature collection's first polygon, for stating results.\<close>

definition ring_of :: "geojson \<Rightarrow> (int \<times> int) list" where
  "ring_of g = (case g of FeatureCollection [Feature (Polygon [r])] \<Rightarrow> r | _ \<Rightarrow> [])"

text \<open>
  The two ways the loop sets \<^verbatim>\<open>done\<close>: the search from the current pixel finds no
  neighbour (line 235), or the walk is back at the start with more than 20 points
  (line 238).
\<close>

definition noNeighbour :: "byte list \<Rightarrow> nat \<Rightarrow> nat \<Rightarrow> tstate \<Rightarrow> bool" where
  "noNeighbour bin width height s \<longleftrightarrow>
     findNext bin width height (fst (idxToXY width (t_curr s))) (snd (idxToXY width (t_curr s)))
       (t_prevDir s) [0..<8] = None"

definition closedLoop :: "nat \<Rightarrow> tstate \<Rightarrow> bool" where
  "closedLoop start s \<longleftrightarrow> t_curr s = start \<and> length (t_coords s) > 20"

section \<open>Concrete inputs\<close>

text \<open>The 4 by 4 mask with the 2 by 2 foreground square at rows and columns 1..2.\<close>

definition square_mask :: "byte list" where
  "square_mask = [0, 0, 0, 0,  0, 255, 255, 0,  0, 255, 255, 0,  0, 0, 0, 0]"

text \<open>
  A 3 by 3 mask on which the walk leaves the start pixel \<open>(0,0)\<close> and then circles through
  \<open>(1,1), (2,1), (1,2), (0,2)\<close> without ever coming back to it.
\<close>

definition hook_mask :: "byte list" where
  "hook_mask = [255, 0, 0,  0, 255, 255,  255, 255, 0]"

text \<open>
  A browser whose canvas calls never throw and whose typed arrays go up to the language's
  limit; scaling gives an empty image and the tensor constructor keeps data and shape.
\<close>

definition plain_env :: env where
  "plain_env =
     \<lparr>env_resize = (\<lambda>c n. Inr []),
      env_Tensor = (\<lambda>d ds. Inr \<lparr>tdata = d, tdims = ds\<rparr>),
      env_drawCrop = (\<lambda>src sx sy sw sh. None),
      env_getImageData = (\<lambda>sw sh. None),
      env_maxArrayLength = 2 ^ 53 - 1\<rparr>"

text \<open>The model is ready, the session declares no input names and throws at every run.\<close>

definition throwing_state :: modstate where
  "throwing_state =
     \<lparr>modelReady = True,
      ortSession = Some \<lparr>sess_inputNames = None,
                         sess_run = (\<lambda>name t. Inl (JsError ''invalid input name''))\<rparr>\<rparr>"

text \<open>An image of \<open>MODEL_SIZE\<close> by \<open>MODEL_SIZE\<close> opaque red pixels.\<close>

definition red_image :: "byte list" where
  "red_image = map (\<lambda>i. [255, 0, 0, 255] ! (i mod 4)) [0..<MODEL_SIZE * MODEL_SIZE * 4]"

declare traceLoop.simps [simp del]

section \<open>Nested row-major fill loops\<close>

lemma fill_row_length:
  "length (fold (\<lambda>x m. m[b + x := g x]) [0..<n] m) = length m"
  by (induction n) simp_all

lemma fill_row_nth:
  "i < length m \<Longrightarrow>
   fold (\<lambda>x m. m[b + x := g x]) [0..<n] m ! i =
     (if b \<le> i \<and> i < b + n then g (i - b) else m ! i)"
proof (induction n)
  case 0
  then show ?case by auto
next
  case (Suc n)
  have len: "i < length (fold (\<lambda>x m. m[b + x := g x]) [0..<n] m)"
    using Suc.prems by (simp add: fill_row_length)
  show ?case
  proof (cases "i = b + n")
    case True
    then show ?thesis using len by simp
  next
    case False
    then show ?thesis using len Suc by (auto simp: nth_list_update)
  qed
qed

lemma fill_grid_length:
  "length (fold (\<lambda>y m. fold (\<lambda>x m. m[y * w + x := g x y]) [0..<w] m) [0..<h] m) = length m"
  by (induction h) (simp_all add: fill_row_length)

lemma fill_grid_nth:
  "i < length m \<Longrightarrow>
   fold (\<lambda>y m. fold (\<lambda>x m. m[y * w + x := g x y]) [0..<w] m) [0..<h] m ! i =
     (if i < h * w then g (i mod w) (i div w) else m ! i)"
proof (induction h)
  case 0
  then show ?case by simp
next
  case (Suc h)
  let ?prev = "fold (\<lambda>y m. fold (\<lambda>x m. m[y * w + x := g x y]) [0..<w] m) [0..<h] m"
  have len: "i < length ?prev"
    using Suc.prems by (simp add: fill_grid_length)
  have step: "fold (\<lambda>x m. m[h * w + x := g x h]) [0..<w] ?prev ! i =
      (if h * w \<le> i \<and> i < h * w + w then g (i - h * w) h else ?prev ! i)"
    using fill_row_nth [OF len, of "h * w" "\<lambda>x. g x h" w] by simp
  show ?case
  proof (cases "h * w \<le> i \<and> i < h * w + w")
    case True
    then have "i div w = h" "i mod w = i - h * w"
      by (auto simp: div_nat_eqI mod_nat_eqI ac_simps)
    then show ?thesis using True step by simp
  next
    case False
    then show ?thesis using step Suc by auto
  qed
qed

lemma fill_grid_cell:
  assumes "x < w" "y < h" "length m = w * h"
  shows "fold (\<lambda>y m. fold (\<lambda>x m. m[y * w + x := g x y]) [0..<w] m) [0..<h] m ! (y * w + x)
           = g x y"
proof -
  have "y * w + x < (y + 1) * w" using assms(1) by simp
  also have "\<dots> \<le> h * w" using assms(2) by (intro mult_le_mono1) simp
  finally have lt: "y * w + x < h * w" .
  then have "y * w + x < length m" using assms(3) by (simp add: ac_simps)
  from fill_grid_nth [OF this, of w g h] lt assms(1) show ?thesis by simp
qed

section \<open>Properties of resampleMaskTo\<close>

lemma resampleMaskTo_length: "length (resampleMaskTo msk w h tw th) = tw * th"
  by (simp add: resampleMaskTo_def fill_grid_length)

lemma resampleMaskTo_nth:
  assumes "xx < tw" "yy < th"
  shows "resampleMaskTo msk w h tw th ! (yy * tw + xx) =
           u8_store (js_get msk (resample_sy yy h th * w + resample_sx xx w tw))"
  unfolding resampleMaskTo_def Let_def
  using fill_grid_cell [OF assms, of "replicate (tw * th) 0"
      "\<lambda>xx yy. u8_store (js_get msk (resample_sy yy h th * w + resample_sx xx w tw))"]
  by simp

lemma resample_sx_less: "xx < tw \<Longrightarrow> 0 < w \<Longrightarrow> resample_sx xx w tw < w"
proof -
  assume a: "xx < tw" "0 < w"
  then have "xx * w < w * tw" by (simp add: ac_simps)
  then show ?thesis
    unfolding resample_sx_def using a(1) by (simp add: less_mult_imp_div_less)
qed

lemma resample_sy_less: "yy < th \<Longrightarrow> 0 < h \<Longrightarrow> resample_sy yy h th < h"
  using resample_sx_less [of yy th h] by (simp add: resample_sx_def resample_sy_def)

section \<open>The mask resampler: claims C9 and C10\<close>



lemma grid_index_less:
  assumes "x < w" "y < h"
  shows "y * w + x < w * (h::nat)"
proof -
  have "y * w + x < (y + 1) * w" using assms(1) by simp
  also have "\<dots> \<le> h * w" using assms(2) by (intro mult_le_mono1) simp
  finally show ?thesis by (simp add: ac_simps)
qed




text \<open>
  Claim C10.  With source and target dimensions of at least 1 and a mask of length
  \<open>w * h\<close>, the source column and row computed for a target pixel lie inside the source,
  the index read lies inside the mask, and the output byte is the mask byte there.
\<close>

theorem resampleMaskTo_reads_in_bounds:
  assumes "1 \<le> w" "1 \<le> h" "1 \<le> tw" "1 \<le> th" "length msk = w * h"
    and "xx < tw" "yy < th"
  shows "resample_sx xx w tw < w \<and> resample_sy yy h th < h \<and>
         resample_sy yy h th * w + resample_sx xx w tw < length msk \<and>
         resampleMaskTo msk w h tw th ! (yy * tw + xx) =
           msk ! (resample_sy yy h th * w + resample_sx xx w tw)"
proof -
  have sx: "resample_sx xx w tw < w" using assms by (simp add: resample_sx_less)
  have sy: "resample_sy yy h th < h" using assms by (simp add: resample_sy_less)
  have idx: "resample_sy yy h th * w + resample_sx xx w tw < length msk"
    using grid_index_less [OF sx sy] assms(5) by simp
  show ?thesis
    using sx sy idx resampleMaskTo_nth [OF assms(6,7), of msk w h]
    by (simp add: js_get_def u8_store_def)
qed

theorem resampleMaskTo_reads_in_bounds_witness:
  "resample_sx 5 2 7 < 2 \<and> resample_sy 2 3 4 < 3 \<and>
   resample_sy 2 3 4 * 2 + resample_sx 5 2 7 < length [0, 255, 0, 255, 255, 0 :: byte] \<and>
   resampleMaskTo [0, 255, 0, 255, 255, 0] 2 3 7 4 ! (2 * 7 + 5) = 255"
  using resampleMaskTo_reads_in_bounds [of 2 3 7 4 "[0, 255, 0, 255, 255, 0]" 5 2]
  by (simp add: resample_sx_def resample_sy_def)

section \<open>The threshold classifier and the segmentation facade: claims C1, C2 and C3\<close>

lemma thresholdMask_length: "length (thresholdMask cropData sw sh) = sw * sh"
  by (simp add: thresholdMask_def Let_def fill_grid_length)

lemma thresholdMask_nth:
  assumes "x < sw" "y < sh"
  shows "thresholdMask cropData sw sh ! (y * sw + x) =
           (if isBlue (js_get cropData ((y * sw + x) * 4))
                      (js_get cropData ((y * sw + x) * 4 + 1))
                      (js_get cropData ((y * sw + x) * 4 + 2))
            then 255 else 0)"
  unfolding thresholdMask_def Let_def
  using fill_grid_cell [OF assms, of "replicate (sw * sh) 0"
      "\<lambda>x y. if isBlue (js_get cropData ((y * sw + x) * 4))
                      (js_get cropData ((y * sw + x) * 4 + 1))
                      (js_get cropData ((y * sw + x) * 4 + 2))
            then 255 else 0"]
  by simp

lemma fill_grid_values:
  assumes "\<forall>v \<in> set m. P v" "\<And>x y. P (g x y)"
  shows "\<forall>v \<in> set (fold (\<lambda>y m. fold (\<lambda>x m. m[y * w + x := g x y]) [0..<w] m) [0..<h] m). P v"
proof
  fix v
  let ?r = "fold (\<lambda>y m. fold (\<lambda>x m. m[y * w + x := g x y]) [0..<w] m) [0..<h] m"
  assume "v \<in> set ?r"
  then obtain i where i: "i < length ?r" "v = ?r ! i"
    by (auto simp: in_set_conv_nth)
  then have im: "i < length m" by (simp add: fill_grid_length)
  show "P v"
    using fill_grid_nth [OF im, of w g h] i(2) assms im by auto
qed

lemma thresholdMask_values: "\<forall>v \<in> set (thresholdMask cropData sw sh). v = 0 \<or> v = 255"
  unfolding thresholdMask_def Let_def
  by (rule fill_grid_values) auto

lemma resampleMaskTo_values:
  assumes "\<forall>v \<in> set msk. v = 0 \<or> v = 255"
  shows "\<forall>v \<in> set (resampleMaskTo msk w h tw th). v = 0 \<or> v = 255"
  unfolding resampleMaskTo_def Let_def
proof (rule fill_grid_values)
  show "\<forall>v\<in>set (replicate (tw * th) (0::byte)). v = 0 \<or> v = 255" by simp
next
  fix x y
  show "u8_store (js_get msk (resample_sy y h th * w + resample_sx x w tw)) = 0 \<or>
        u8_store (js_get msk (resample_sy y h th * w + resample_sx x w tw)) = 255"
    using assms by (auto simp: js_get_def u8_store_def)
qed

lemma new_Uint8ClampedArray_Inr:
  "new_Uint8ClampedArray e n = Inr a \<longleftrightarrow> n \<le> arrayLimit e \<and> a = replicate n 0"
  by (auto simp: new_Uint8ClampedArray_def)

lemma new_Uint8ClampedArray_Inl:
  "new_Uint8ClampedArray e n = Inl err \<longleftrightarrow> arrayLimit e < n \<and> err = JsError ''RangeError''"
  by (auto simp: new_Uint8ClampedArray_def)

lemma maskFromOutput_ok:
  assumes "maskFromOutput e results sw sh = Inr r"
  shows "mask_ok sw sh r"
proof (cases results)
  case Nil
  with assms show ?thesis by (simp add: maskFromOutput_def)
next
  case (Cons a rest)
  obtain outName outTensor where a: "a = (outName, outTensor)" by (cases a)
  let ?ow = "js_get_int (tdims outTensor) (int (length (tdims outTensor)) - 1)"
  let ?oh = "js_get_int (tdims outTensor) (int (length (tdims outTensor)) - 2)"
  show ?thesis
  proof (cases "?ow")
    case None
    with assms Cons a show ?thesis
      by (auto simp: maskFromOutput_def Let_def mask_ok_def list_all_iff
          new_Uint8ClampedArray_Inr split: sum.splits)
  next
    case ow: (Some ow)
    show ?thesis
    proof (cases "?oh")
      case None
      with assms Cons a ow show ?thesis
        by (auto simp: maskFromOutput_def Let_def mask_ok_def list_all_iff
            new_Uint8ClampedArray_Inr split: sum.splits)
    next
      case oh: (Some oh)
      let ?m = "map (\<lambda>i. if gt_half (js_get (tdata outTensor) i) then 255 else 0 :: byte)
                  [0..<ow * oh]"
      have r: "r = \<lparr>res_mask = resampleMaskTo ?m ow oh sw sh, res_width = sw, res_height = sh\<rparr>"
        using assms Cons a ow oh
        by (auto simp: maskFromOutput_def Let_def split: sum.splits)
      have "\<forall>v \<in> set ?m. v = 0 \<or> v = 255" by auto
      from resampleMaskTo_values [OF this] show ?thesis
        by (simp add: r mask_ok_def list_all_iff resampleMaskTo_length)
    qed
  qed
qed

lemma maskFromOutput_too_big:
  assumes "arrayLimit e < sw * sh"
  shows "\<exists>err. maskFromOutput e results sw sh = Inl err"
  using assms
  by (auto simp: maskFromOutput_def Let_def new_Uint8ClampedArray_def
      split: list.splits option.splits sum.splits)

lemma tryInputNames_ok:
  "tryInputNames e sess t sw sh names = Some r \<Longrightarrow> mask_ok sw sh r"
proof (induction names)
  case Nil
  then show ?case by simp
next
  case (Cons name names)
  then show ?case
    by (auto split: sum.splits dest: maskFromOutput_ok)
qed

lemma tryInputNames_all_throw:
  "\<forall>name \<in> set names. \<exists>err. sess_run sess name t = Inl err \<Longrightarrow>
   tryInputNames e sess t sw sh names = None"
  by (induction names) auto

lemma tryInputNames_too_big:
  assumes "arrayLimit e < sw * sh"
  shows "tryInputNames e sess t sw sh names = None"
proof (induction names)
  case Nil
  show ?case by simp
next
  case (Cons name names)
  show ?case
  proof (cases "sess_run sess name t")
    case (Inl err)
    then show ?thesis using Cons by simp
  next
    case (Inr results)
    obtain err where "maskFromOutput e results sw sh = Inl err"
      using maskFromOutput_too_big [OF assms] by blast
    then show ?thesis using Inr Cons by simp
  qed
qed

lemma modelInference_ok:
  "modelInference e sess crop sw sh = Inr (Some r) \<Longrightarrow> mask_ok sw sh r"
  by (auto simp: modelInference_def split: sum.splits if_splits dest: tryInputNames_ok)

lemma modelInference_too_big:
  "arrayLimit e < sw * sh \<Longrightarrow> modelInference e sess crop sw sh \<noteq> Inr (Some r)"
  by (auto simp: modelInference_def tryInputNames_too_big split: sum.splits if_splits)

lemma modelInference_all_throw:
  assumes "\<forall>name \<in> set (inputNamesToTry sess). \<forall>t. \<exists>err. sess_run sess name t = Inl err"
  shows "modelInference e sess crop sw sh \<noteq> Inr (Some r)"
proof -
  have "tryInputNames e sess t sw sh (inputNamesToTry sess) = None" for t
    using assms by (intro tryInputNames_all_throw) blast
  then show ?thesis
    by (auto simp: modelInference_def split: sum.splits if_splits)
qed

text \<open>The value of the fallback on the crop.\<close>

lemma segment_no_model:
  assumes "env_drawCrop e src (crop_sx b) (crop_sy b) (crop_sw b) (crop_sh b) = None"
    and "\<not> modelReady st \<or> ortSession st = None \<or>
         (\<exists>sess. ortSession st = Some sess \<and>
            (\<forall>r. modelInference e sess (extractCrop src b) (crop_sw b) (crop_sh b)
                    \<noteq> Inr (Some r)))"
  shows "segmentBoxOnCanvas e st src b =
           (case env_getImageData e (crop_sw b) (crop_sh b) of
              Some err \<Rightarrow> Inl err
            | None \<Rightarrow>
                if arrayLimit e < crop_sw b * crop_sh b then Inl (JsError ''RangeError'')
                else Inr \<lparr>res_mask = thresholdMask (rdata (extractCrop src b))
                                        (crop_sw b) (crop_sh b),
                          res_width = crop_sw b, res_height = crop_sh b\<rparr>)"
proof -
  have via: "(if modelReady st then
               (case ortSession st of
                  None \<Rightarrow> None
                | Some sess \<Rightarrow>
                    (case modelInference e sess (extractCrop src b) (crop_sw b) (crop_sh b) of
                       Inl err \<Rightarrow> None
                     | Inr r \<Rightarrow> r))
             else None) = None"
    using assms(2) by (auto split: option.splits sum.splits)
  show ?thesis
    unfolding segmentBoxOnCanvas_def Let_def assms(1) via
    by (simp add: new_Uint8ClampedArray_def split: option.splits)
qed

lemma segment_Inr_ok:
  assumes "segmentBoxOnCanvas e st src b = Inr r"
  shows "mask_ok (crop_sw b) (crop_sh b) r"
proof -
  let ?mi = "\<lambda>sess. modelInference e sess (extractCrop src b) (crop_sw b) (crop_sh b)"
  have dc: "env_drawCrop e src (crop_sx b) (crop_sy b) (crop_sw b) (crop_sh b) = None"
    using assms by (auto simp: segmentBoxOnCanvas_def Let_def split: option.splits)
  show ?thesis
  proof (cases "\<exists>sess r'. modelReady st \<and> ortSession st = Some sess \<and> ?mi sess = Inr (Some r')")
    case True
    then obtain sess r' where m: "modelReady st" "ortSession st = Some sess"
        "?mi sess = Inr (Some r')" by blast
    then have "segmentBoxOnCanvas e st src b = Inr r'"
      by (simp add: segmentBoxOnCanvas_def Let_def dc)
    with assms have "r = r'" by simp
    with modelInference_ok [OF m(3)] show ?thesis by simp
  next
    case False
    then have "\<not> modelReady st \<or> ortSession st = None \<or>
         (\<exists>sess. ortSession st = Some sess \<and> (\<forall>r. ?mi sess \<noteq> Inr (Some r)))"
      by (cases "ortSession st") auto
    from segment_no_model [OF dc this] assms show ?thesis
      by (auto simp: mask_ok_def list_all_iff thresholdMask_length thresholdMask_values
          split: option.splits if_splits)
  qed
qed

lemma segment_Inl_source:
  assumes "segmentBoxOnCanvas e st src b = Inl err"
  shows "env_drawCrop e src (crop_sx b) (crop_sy b) (crop_sw b) (crop_sh b) = Some err \<or>
         env_getImageData e (crop_sw b) (crop_sh b) = Some err \<or>
         (err = JsError ''RangeError'' \<and> arrayLimit e < crop_sw b * crop_sh b)"
  using assms
  by (auto simp: segmentBoxOnCanvas_def Let_def new_Uint8ClampedArray_def
      split: option.splits sum.splits if_splits)

lemma segment_total:
  assumes "fallbackSucceeds e src b"
  shows "\<exists>r. segmentBoxOnCanvas e st src b = Inr r"
proof (cases "segmentBoxOnCanvas e st src b")
  case (Inl err)
  from segment_Inl_source [OF this] assms show ?thesis
    by (auto simp: fallbackSucceeds_def)
next
  case (Inr r)
  then show ?thesis by blast
qed

lemma segment_too_big:
  assumes "env_drawCrop e src (crop_sx b) (crop_sy b) (crop_sw b) (crop_sh b) = None"
    and "env_getImageData e (crop_sw b) (crop_sh b) = None"
    and "arrayLimit e < crop_sw b * crop_sh b"
  shows "segmentBoxOnCanvas e st src b = Inl (JsError ''RangeError'')"
proof -
  have "\<not> modelReady st \<or> ortSession st = None \<or>
         (\<exists>sess. ortSession st = Some sess \<and>
            (\<forall>r. modelInference e sess (extractCrop src b) (crop_sw b) (crop_sh b)
                    \<noteq> Inr (Some r)))"
    using modelInference_too_big [OF assms(3)] by (cases "ortSession st") auto
  from segment_no_model [OF assms(1) this] show ?thesis
    using assms(2,3) by simp
qed

lemma canvas_pixel_length: "length (canvas_pixel src x y) = 4"
  by (simp add: canvas_pixel_def)

lemma extractCrop_length:
  "length (rdata (extractCrop src b)) = crop_sw b * crop_sh b * 4"
  by (simp add: extractCrop_def drawImage_crop_def length_concat comp_def
      canvas_pixel_length sum_list_triv)

lemma crop_size: "int (crop_sw b) = max 1 \<lfloor>box_w b\<rfloor>" "int (crop_sh b) = max 1 \<lfloor>box_h b\<rfloor>"
  by (simp_all add: crop_sw_def crop_sh_def)

text \<open>The crop of the two-pixel example canvas and its threshold mask.\<close>

lemma example_crop:
  "crop_sw \<lparr>box_x = 0, box_y = 0, box_w = 5 / 2, box_h = 1 / 3\<rparr> = 2"
  "crop_sh \<lparr>box_x = 0, box_y = 0, box_w = 5 / 2, box_h = 1 / 3\<rparr> = 1"
  "rdata (extractCrop
      \<lparr>rwidth = 2, rheight = 1, rdata = [10, 20, 200, 255, 200, 200, 200, 255]\<rparr>
      \<lparr>box_x = 0, box_y = 0, box_w = 5 / 2, box_h = 1 / 3\<rparr>)
     = [10, 20, 200, 255, 200, 200, 200, 255]"
proof -
  let ?b = "\<lparr>box_x = 0, box_y = 0, box_w = 5 / 2, box_h = 1 / 3\<rparr>"
  have fl: "\<lfloor>5 / 2 :: rat\<rfloor> = 2" "\<lfloor>1 / 3 :: rat\<rfloor> = 0"
    by linarith+
  show sw: "crop_sw ?b = 2" and sh: "crop_sh ?b = 1"
    by (simp_all add: crop_sw_def crop_sh_def fl)
  have sxy: "crop_sx ?b = 0" "crop_sy ?b = 0"
    by (simp_all add: crop_sx_def crop_sy_def)
  show "rdata (extractCrop
      \<lparr>rwidth = 2, rheight = 1, rdata = [10, 20, 200, 255, 200, 200, 200, 255]\<rparr> ?b)
     = [10, 20, 200, 255, 200, 200, 200, 255]"
    by (simp add: extractCrop_def sw sh sxy drawImage_crop_def canvas_pixel_def upt_conv_Cons
        js_get_def u8_store_def)
qed

lemma example_threshold:
  "thresholdMask [10, 20, 200, 255, 200, 200, 200, 255] 2 1 = [255, 0]"
proof -
  have rep: "replicate 2 (0::byte) = [0, 0]"
    by (simp add: numeral_2_eq_2)
  show ?thesis
    by (simp add: thresholdMask_def Let_def upt_conv_Cons js_get_def isBlue_def rep)
qed

lemma example_fallbackSucceeds:
  "fallbackSucceeds plain_env src \<lparr>box_x = 0, box_y = 0, box_w = 5 / 2, box_h = 1 / 3\<rparr>"
  by (simp add: fallbackSucceeds_def example_crop plain_env_def arrayLimit_def)

text \<open>
  Claim C1, as stated, fails: with a session that throws at every input name, on a box of
  width \<open>10^16\<close> and height 1, whose crop has at least 1 by 1 pixels, the allocation of the
  mask on line 122 throws a RangeError, and it is outside the \<^verbatim>\<open>try\<close>.
\<close>

theorem segmentBoxOnCanvas_raises_counterexample:
  "segmentBoxOnCanvas plain_env throwing_state
     \<lparr>rwidth = 2, rheight = 1, rdata = [10, 20, 200, 255, 200, 200, 200, 255]\<rparr>
     \<lparr>box_x = 0, box_y = 0, box_w = 10000000000000000, box_h = 1\<rparr>
   = Inl (JsError ''RangeError'') \<and>
   1 \<le> crop_sw \<lparr>box_x = 0, box_y = 0, box_w = 10000000000000000, box_h = 1\<rparr> \<and>
   1 \<le> crop_sh \<lparr>box_x = 0, box_y = 0, box_w = 10000000000000000, box_h = 1\<rparr>"
proof -
  let ?b = "\<lparr>box_x = 0, box_y = 0, box_w = 10000000000000000, box_h = 1\<rparr>"
  have sz: "crop_sw ?b = 10000000000000000" "crop_sh ?b = 1"
    by (simp_all add: crop_sw_def crop_sh_def)
  have big: "arrayLimit plain_env < crop_sw ?b * crop_sh ?b"
    by (simp add: sz arrayLimit_def plain_env_def)
  have "segmentBoxOnCanvas plain_env throwing_state
     \<lparr>rwidth = 2, rheight = 1, rdata = [10, 20, 200, 255, 200, 200, 200, 255]\<rparr> ?b
       = Inl (JsError ''RangeError'')"
    by (rule segment_too_big [OF _ _ big]) (simp_all add: plain_env_def)
  then show ?thesis by (simp add: sz)
qed

text \<open>
  Claim C1, amended.  The crop always has at least 1 by 1 pixels.  \<open>segmentBoxOnCanvas\<close>
  raises an error to its caller only from the statements outside its \<^verbatim>\<open>try\<close>: the canvas
  calls of lines 50-54, \<^verbatim>\<open>getImageData\<close> of line 121, or the allocation of the mask of
  \<open>sw * sh\<close> bytes on line 122, a RangeError when \<open>sw * sh\<close> is above the largest
  typed-array length.  When these succeed it returns a result whatever the model branch
  does; and when moreover the model is ready but the session throws at every input name
  tried, the result is the mask of the threshold classifier on the same crop, with the
  crop's dimensions.
\<close>

theorem segmentBoxOnCanvas_raises_only_outside_try:
  "1 \<le> crop_sw b \<and> 1 \<le> crop_sh b \<and>
   (\<forall>err. segmentBoxOnCanvas e st src b = Inl err \<longrightarrow>
      env_drawCrop e src (crop_sx b) (crop_sy b) (crop_sw b) (crop_sh b) = Some err \<or>
      env_getImageData e (crop_sw b) (crop_sh b) = Some err \<or>
      (err = JsError ''RangeError'' \<and> arrayLimit e < crop_sw b * crop_sh b)) \<and>
   (fallbackSucceeds e src b \<longrightarrow> (\<exists>r. segmentBoxOnCanvas e st src b = Inr r)) \<and>
   (fallbackSucceeds e src b \<and> modelReady st \<and> ortSession st = Some sess \<and>
    (\<forall>name \<in> set (inputNamesToTry sess). \<forall>t. \<exists>err. sess_run sess name t = Inl err) \<longrightarrow>
      segmentBoxOnCanvas e st src b =
        Inr \<lparr>res_mask = thresholdMask (rdata (extractCrop src b)) (crop_sw b) (crop_sh b),
             res_width = crop_sw b, res_height = crop_sh b\<rparr>)"
proof (intro conjI impI allI)
  show "1 \<le> crop_sw b" by (simp add: crop_sw_def)
next
  show "1 \<le> crop_sh b" by (simp add: crop_sh_def)
next
  fix err assume "segmentBoxOnCanvas e st src b = Inl err"
  then show "env_drawCrop e src (crop_sx b) (crop_sy b) (crop_sw b) (crop_sh b) = Some err \<or>
      env_getImageData e (crop_sw b) (crop_sh b) = Some err \<or>
      (err = JsError ''RangeError'' \<and> arrayLimit e < crop_sw b * crop_sh b)"
    by (rule segment_Inl_source)
next
  assume "fallbackSucceeds e src b"
  then show "\<exists>r. segmentBoxOnCanvas e st src b = Inr r" by (rule segment_total)
next
  assume a: "fallbackSucceeds e src b \<and> modelReady st \<and> ortSession st = Some sess \<and>
    (\<forall>name \<in> set (inputNamesToTry sess). \<forall>t. \<exists>err. sess_run sess name t = Inl err)"
  then have "\<forall>r. modelInference e sess (extractCrop src b) (crop_sw b) (crop_sh b)
                \<noteq> Inr (Some r)"
    using modelInference_all_throw [of sess e] by blast
  then have nm: "\<not> modelReady st \<or> ortSession st = None \<or>
         (\<exists>sess. ortSession st = Some sess \<and>
            (\<forall>r. modelInference e sess (extractCrop src b) (crop_sw b) (crop_sh b)
                    \<noteq> Inr (Some r)))"
    using a by blast
  from a have dc: "env_drawCrop e src (crop_sx b) (crop_sy b) (crop_sw b) (crop_sh b) = None"
    by (simp add: fallbackSucceeds_def)
  from segment_no_model [OF dc nm] a
  show "segmentBoxOnCanvas e st src b =
        Inr \<lparr>res_mask = thresholdMask (rdata (extractCrop src b)) (crop_sw b) (crop_sh b),
             res_width = crop_sw b, res_height = crop_sh b\<rparr>"
    by (simp add: fallbackSucceeds_def)
qed

theorem segmentBoxOnCanvas_raises_only_outside_try_witness:
  "segmentBoxOnCanvas plain_env throwing_state
     \<lparr>rwidth = 2, rheight = 1, rdata = [10, 20, 200, 255, 200, 200, 200, 255]\<rparr>
     \<lparr>box_x = 0, box_y = 0, box_w = 5 / 2, box_h = 1 / 3\<rparr>
   = Inr \<lparr>res_mask = [255, 0], res_width = 2, res_height = 1\<rparr>"
proof -
  let ?sess = "\<lparr>sess_inputNames = None,
                 sess_run = (\<lambda>name t. Inl (JsError ''invalid input name''))\<rparr>"
  let ?b = "\<lparr>box_x = 0, box_y = 0, box_w = 5 / 2, box_h = 1 / 3\<rparr>"
  let ?src = "\<lparr>rwidth = 2, rheight = 1, rdata = [10, 20, 200, 255, 200, 200, 200, 255]\<rparr>"
  have hyp: "fallbackSucceeds plain_env ?src ?b \<and> modelReady throwing_state \<and>
      ortSession throwing_state = Some ?sess \<and>
      (\<forall>name \<in> set (inputNamesToTry ?sess). \<forall>t. \<exists>err. sess_run ?sess name t = Inl err)"
    by (simp add: example_fallbackSucceeds throwing_state_def)
  have t: "segmentBoxOnCanvas plain_env throwing_state ?src ?b =
      Inr \<lparr>res_mask = thresholdMask (rdata (extractCrop ?src ?b)) (crop_sw ?b) (crop_sh ?b),
           res_width = crop_sw ?b, res_height = crop_sh ?b\<rparr>"
    using segmentBoxOnCanvas_raises_only_outside_try
            [of ?b plain_env throwing_state ?src ?sess] hyp
    by blast
  show ?thesis
    by (simp only: t example_crop example_threshold)
qed

text \<open>
  Claim C2.  On an RGBA crop of \<open>sw\<close> by \<open>sh\<close> pixels the threshold classifier gives a
  mask of \<open>sw * sh\<close> bytes whose byte for pixel \<open>(x, y)\<close> is 255 exactly when
  \<open>B > 100\<close>, \<open>B > R + 30\<close> and \<open>B > G + 20\<close> hold for the channels of that pixel, and
  0 otherwise.  The crop canvas always holds \<open>sw * sh * 4\<close> bytes, and with no model ready
  the result of \<open>segmentBoxOnCanvas\<close>, which exists when the statements of the fallback
  do not throw, is this mask of the crop.  (The classifier is a function of the crop
  alone.)
\<close>

theorem thresholdMask_blue_rule:
  "length (thresholdMask cropData sw sh) = sw * sh \<and>
   (x < sw \<and> y < sh \<and> length cropData = sw * sh * 4 \<longrightarrow>
      thresholdMask cropData sw sh ! (y * sw + x) =
        (if unat (cropData ! ((y * sw + x) * 4 + 2)) > 100
            \<and> unat (cropData ! ((y * sw + x) * 4 + 2)) > unat (cropData ! ((y * sw + x) * 4)) + 30
            \<and> unat (cropData ! ((y * sw + x) * 4 + 2))
                 > unat (cropData ! ((y * sw + x) * 4 + 1)) + 20
         then 255 else 0)) \<and>
   length (rdata (extractCrop src b)) = crop_sw b * crop_sh b * 4 \<and>
   (\<not> modelReady st \<and> fallbackSucceeds e src b \<longrightarrow>
      segmentBoxOnCanvas e st src b =
        Inr \<lparr>res_mask = thresholdMask (rdata (extractCrop src b)) (crop_sw b) (crop_sh b),
             res_width = crop_sw b, res_height = crop_sh b\<rparr>) \<and>
   (\<not> modelReady st \<longrightarrow>
      (\<forall>r. segmentBoxOnCanvas e st src b = Inr r \<longrightarrow>
         r = \<lparr>res_mask = thresholdMask (rdata (extractCrop src b)) (crop_sw b) (crop_sh b),
              res_width = crop_sw b, res_height = crop_sh b\<rparr>))"
proof (intro conjI impI allI)
  show "length (thresholdMask cropData sw sh) = sw * sh" by (rule thresholdMask_length)
next
  assume a: "x < sw \<and> y < sh \<and> length cropData = sw * sh * 4"
  then have "y * sw + x < sw * sh" by (simp add: grid_index_less)
  then have "(y * sw + x) * 4 + 2 < length cropData" using a by simp
  then show "thresholdMask cropData sw sh ! (y * sw + x) =
        (if unat (cropData ! ((y * sw + x) * 4 + 2)) > 100
            \<and> unat (cropData ! ((y * sw + x) * 4 + 2)) > unat (cropData ! ((y * sw + x) * 4)) + 30
            \<and> unat (cropData ! ((y * sw + x) * 4 + 2))
                 > unat (cropData ! ((y * sw + x) * 4 + 1)) + 20
         then 255 else 0)"
    using a by (simp add: thresholdMask_nth js_get_def isBlue_def)
next
  show "length (rdata (extractCrop src b)) = crop_sw b * crop_sh b * 4"
    by (rule extractCrop_length)
next
  assume a: "\<not> modelReady st \<and> fallbackSucceeds e src b"
  then have dc: "env_drawCrop e src (crop_sx b) (crop_sy b) (crop_sw b) (crop_sh b) = None"
    by (simp add: fallbackSucceeds_def)
  from segment_no_model [OF dc, of st] a
  show "segmentBoxOnCanvas e st src b =
        Inr \<lparr>res_mask = thresholdMask (rdata (extractCrop src b)) (crop_sw b) (crop_sh b),
             res_width = crop_sw b, res_height = crop_sh b\<rparr>"
    by (simp add: fallbackSucceeds_def)
next
  fix r
  assume nr: "\<not> modelReady st" and r: "segmentBoxOnCanvas e st src b = Inr r"
  from r have dc: "env_drawCrop e src (crop_sx b) (crop_sy b) (crop_sw b) (crop_sh b) = None"
    by (auto simp: segmentBoxOnCanvas_def Let_def split: option.splits)
  from segment_no_model [OF dc, of st] nr r
  show "r = \<lparr>res_mask = thresholdMask (rdata (extractCrop src b)) (crop_sw b) (crop_sh b),
              res_width = crop_sw b, res_height = crop_sh b\<rparr>"
    by (auto split: option.splits if_splits)
qed

theorem thresholdMask_blue_rule_witness:
  "thresholdMask [10, 20, 200, 255, 200, 200, 200, 255] 2 1 ! (0 * 2 + 0) = 255 \<and>
   thresholdMask [10, 20, 200, 255, 200, 200, 200, 255] 2 1 ! (0 * 2 + 1) = 0 \<and>
   segmentBoxOnCanvas plain_env \<lparr>modelReady = False, ortSession = None\<rparr>
     \<lparr>rwidth = 2, rheight = 1, rdata = [10, 20, 200, 255, 200, 200, 200, 255]\<rparr>
     \<lparr>box_x = 0, box_y = 0, box_w = 5 / 2, box_h = 1 / 3\<rparr>
   = Inr \<lparr>res_mask = [255, 0], res_width = 2, res_height = 1\<rparr>"
proof -
  let ?st = "\<lparr>modelReady = False, ortSession = None\<rparr>"
  let ?b = "\<lparr>box_x = 0, box_y = 0, box_w = 5 / 2, box_h = 1 / 3\<rparr>"
  let ?src = "\<lparr>rwidth = 2, rheight = 1, rdata = [10, 20, 200, 255, 200, 200, 200, 255]\<rparr>"
  let ?d = "[10, 20, 200, 255, 200, 200, 200, 255] :: byte list"
  have p0: "thresholdMask ?d 2 1 ! (0 * 2 + 0) = 255"
    using thresholdMask_blue_rule [of ?d 2 1 0 0 ?src ?b ?st plain_env] by simp
  have p1: "thresholdMask ?d 2 1 ! (0 * 2 + 1) = 0"
    using thresholdMask_blue_rule [of ?d 2 1 1 0 ?src ?b ?st plain_env] by simp
  have hyp: "\<not> modelReady ?st \<and> fallbackSucceeds plain_env ?src ?b"
    by (simp add: example_fallbackSucceeds)
  have t: "segmentBoxOnCanvas plain_env ?st ?src ?b =
      Inr \<lparr>res_mask = thresholdMask (rdata (extractCrop ?src ?b)) (crop_sw ?b) (crop_sh ?b),
           res_width = crop_sw ?b, res_height = crop_sh ?b\<rparr>"
    using thresholdMask_blue_rule [of ?d 2 1 0 0 ?src ?b ?st plain_env] hyp by blast
  have seg: "segmentBoxOnCanvas plain_env ?st ?src ?b =
      Inr \<lparr>res_mask = [255, 0], res_width = 2, res_height = 1\<rparr>"
    by (simp only: t example_crop example_threshold)
  show ?thesis
    using p0 p1 seg by (intro conjI)
qed

text \<open>
  Claim C3.  For every box (and every source canvas, module state and runtime) the result
  of \<open>segmentBoxOnCanvas\<close>, whichever branch produced it, has width
  \<open>max 1 (floor box.w)\<close>, height \<open>max 1 (floor box.h)\<close>, a mask of exactly width times
  height bytes, and every mask byte is 0 or 255; and there is a result whenever the
  statements outside the \<^verbatim>\<open>try\<close> do not throw.
\<close>

theorem segmentBoxOnCanvas_mask_invariant:
  "(\<forall>r. segmentBoxOnCanvas e st src b = Inr r \<longrightarrow>
       int (res_width r) = max 1 \<lfloor>box_w b\<rfloor> \<and> int (res_height r) = max 1 \<lfloor>box_h b\<rfloor> \<and>
       length (res_mask r) = res_width r * res_height r \<and>
       (\<forall>v \<in> set (res_mask r). v = 0 \<or> v = 255)) \<and>
   (fallbackSucceeds e src b \<longrightarrow>
     (\<exists>r. segmentBoxOnCanvas e st src b = Inr r \<and>
       int (res_width r) = max 1 \<lfloor>box_w b\<rfloor> \<and> int (res_height r) = max 1 \<lfloor>box_h b\<rfloor> \<and>
       length (res_mask r) = res_width r * res_height r \<and>
       (\<forall>v \<in> set (res_mask r). v = 0 \<or> v = 255)))"
proof -
  have inv: "int (res_width r) = max 1 \<lfloor>box_w b\<rfloor> \<and> int (res_height r) = max 1 \<lfloor>box_h b\<rfloor> \<and>
       length (res_mask r) = res_width r * res_height r \<and>
       (\<forall>v \<in> set (res_mask r). v = 0 \<or> v = 255)"
    if "segmentBoxOnCanvas e st src b = Inr r" for r
    using segment_Inr_ok [OF that] crop_size [of b]
    by (auto simp: mask_ok_def list_all_iff)
  show ?thesis
    using inv segment_total [of e src b st] by blast
qed

theorem segmentBoxOnCanvas_mask_invariant_witness:
  "\<exists>r. segmentBoxOnCanvas plain_env
         \<lparr>modelReady = True,
          ortSession = Some \<lparr>sess_inputNames = Some [''input''],
             sess_run = (\<lambda>name t. Inr [(''masks'',
                \<lparr>tdata = [Num 1, Num 0, Num (9 / 10), NaN], tdims = [1, 1, 2, 2]\<rparr>)])\<rparr>\<rparr>
         \<lparr>rwidth = 2, rheight = 1, rdata = [10, 20, 200, 255, 200, 200, 200, 255]\<rparr>
         \<lparr>box_x = 0, box_y = 0, box_w = 5 / 2, box_h = 1 / 3\<rparr> = Inr r \<and>
       int (res_width r) = 2 \<and> int (res_height r) = 1 \<and> length (res_mask r) = 2 \<and>
       (\<forall>v \<in> set (res_mask r). v = 0 \<or> v = 255)"
proof -
  let ?st = "\<lparr>modelReady = True,
          ortSession = Some \<lparr>sess_inputNames = Some [''input''],
             sess_run = (\<lambda>name t. Inr [(''masks'',
                \<lparr>tdata = [Num 1, Num 0, Num (9 / 10), NaN], tdims = [1, 1, 2, 2]\<rparr>)])\<rparr>\<rparr>"
  let ?b = "\<lparr>box_x = 0, box_y = 0, box_w = 5 / 2, box_h = 1 / 3\<rparr>"
  let ?src = "\<lparr>rwidth = 2, rheight = 1, rdata = [10, 20, 200, 255, 200, 200, 200, 255]\<rparr>"
  have fl: "\<lfloor>5 / 2 :: rat\<rfloor> = 2" "\<lfloor>1 / 3 :: rat\<rfloor> = 0"
    by linarith+
  have "\<exists>r. segmentBoxOnCanvas plain_env ?st ?src ?b = Inr r \<and>
       int (res_width r) = max 1 \<lfloor>box_w ?b\<rfloor> \<and> int (res_height r) = max 1 \<lfloor>box_h ?b\<rfloor> \<and>
       length (res_mask r) = res_width r * res_height r \<and>
       (\<forall>v \<in> set (res_mask r). v = 0 \<or> v = 255)"
    using segmentBoxOnCanvas_mask_invariant [of plain_env ?st ?src ?b]
          example_fallbackSucceeds [of ?src]
    by blast
  then show ?thesis by (auto simp: fl)
qed

text \<open>On that input the result comes from the model branch: the 2 by 2 output resampled.\<close>

lemma segmentBoxOnCanvas_model_branch_example:
  "segmentBoxOnCanvas plain_env
         \<lparr>modelReady = True,
          ortSession = Some \<lparr>sess_inputNames = Some [''input''],
             sess_run = (\<lambda>name t. Inr [(''masks'',
                \<lparr>tdata = [Num 1, Num 0, Num (9 / 10), NaN], tdims = [1, 1, 2, 2]\<rparr>)])\<rparr>\<rparr>
         \<lparr>rwidth = 2, rheight = 1, rdata = [10, 20, 200, 255, 200, 200, 200, 255]\<rparr>
         \<lparr>box_x = 0, box_y = 0, box_w = 5 / 2, box_h = 1 / 3\<rparr>
     = Inr \<lparr>res_mask = [255, 0], res_width = 2, res_height = 1\<rparr>"
proof -
  have rep: "replicate 2 (0::byte) = [0, 0]"
    by (simp add: numeral_2_eq_2)
  have rs: "resampleMaskTo [255, 0, 255, 0] 2 2 2 (Suc 0) = [255, 0]"
    by (simp add: resampleMaskTo_def resample_sx_def resample_sy_def Let_def upt_conv_Cons
        js_get_def u8_store_def rep)
  show ?thesis
    by (simp add: segmentBoxOnCanvas_def Let_def modelInference_def inputNamesToTry_def
        maskFromOutput_def js_get_int_def js_get_def gt_half_def example_crop
        upt_conv_Cons rs plain_env_def arrayLimit_def new_Uint8ClampedArray_def MODEL_SIZE_def)
qed

section \<open>The boundary tracer: claims C4, C6, C7 and C8\<close>

lemma binOf_length: "length (binOf msk width height) = width * height"
  by (simp add: binOf_def)

lemma binOf_nth:
  "i < width * height \<Longrightarrow>
   binOf msk width height ! i = (if js_truthy (js_get msk i) then 1 else 0)"
  by (simp add: binOf_def)

lemma binOf_truthy:
  "js_truthy (js_get (binOf msk width height) i) \<longleftrightarrow>
     i < width * height \<and> i < length msk \<and> msk ! i \<noteq> 0"
  by (auto simp: js_get_def js_truthy_def binOf_def)

text \<open>
  Claim C7.  A mask whose entries are all 0 has no start pixel: the result is the feature
  collection with no feature, for every width, height and offset.
\<close>

theorem maskToGeoJSON_all_background:
  assumes "\<forall>v \<in> set msk. v = 0"
  shows "maskToGeoJSON msk width height offsetX offsetY = FeatureCollection []"
proof -
  have "\<not> js_truthy (js_get (binOf msk width height) i)" for i
    using assms by (simp add: binOf_truthy)
  then have "findStart (binOf msk width height) = None"
    by (simp add: findStart_def find_None_iff)
  then show ?thesis by (simp add: maskToGeoJSON_def)
qed

theorem maskToGeoJSON_all_background_witness:
  "maskToGeoJSON [0, 0, 0, 0, 0, 0] 3 2 7 (- 4) = FeatureCollection []"
  using maskToGeoJSON_all_background [of "[0, 0, 0, 0, 0, 0]" 3 2 7 "- 4"]
  by simp

lemma traceLoop_single_step:
  assumes "findNext bin width height (fst (idxToXY width start)) (snd (idxToXY width start))
             0 [0..<8] = None"
  shows "t_coords (traceLoop bin width height start offsetX offsetY (traceInit start)) =
           [(fst (idxToXY width start) + offsetX, snd (idxToXY width start) + offsetY)]"
proof -
  let ?s0 = "\<lparr>t_curr = start, t_prevDir = 0, t_coords = [], t_done = False,
               t_loopGuard = Suc 0\<rparr>"
  let ?s1 = "\<lparr>t_curr = start, t_prevDir = 0,
      t_coords = [(fst (idxToXY width start) + offsetX, snd (idxToXY width start) + offsetY)],
      t_done = True, t_loopGuard = Suc 0\<rparr>"
  have step: "traceStep bin width height start offsetX offsetY ?s0 = ?s1"
    using assms by (simp add: traceStep_def Let_def)
  have fin: "traceLoop bin width height start offsetX offsetY ?s1 = ?s1"
    by (subst traceLoop.simps) simp
  show ?thesis
    by (subst traceLoop.simps) (simp add: traceInit_def step fin)
qed

text \<open>
  Claim C8.  For every 10 by 10 mask whose only non-zero entry is at \<open>(5,5)\<close>, that is at
  index 55, and for every offset pair, the result is one polygon whose single ring is the
  one point \<open>(5 + offsetX, 5 + offsetY)\<close>.
\<close>

theorem maskToGeoJSON_single_pixel:
  assumes "length msk = 100" and "\<forall>i<100. (msk ! i \<noteq> 0) = (i = 55)"
  shows "maskToGeoJSON msk 10 10 offsetX offsetY =
           FeatureCollection [Feature (Polygon [[(5 + offsetX, 5 + offsetY)]])]"
proof -
  let ?bin = "binOf msk 10 10"
  have fg: "msk ! 55 \<noteq> 0"
    using assms(2) [rule_format, of 55] by simp
  have bg: "msk ! i = 0" if "i < 100" "i \<noteq> 55" for i
    using assms(2) [rule_format, of i] that by simp
  have tr: "js_truthy (js_get ?bin i) \<longleftrightarrow> i = 55" for i
    using fg bg [of i] assms(1) by (auto simp: binOf_truthy)
  have len: "length ?bin = 100" by (simp add: binOf_length)
  have start: "findStart ?bin = Some 55"
    unfolding findStart_def find_Some_iff
    by (rule exI [of _ 55]) (simp add: len tr)
  have xy: "idxToXY 10 55 = (5, 5)" by (simp add: idxToXY_def)
  have nxt: "findNext ?bin 10 10 5 5 0 [0..<8] = None"
    by (simp add: upt_conv_Cons directions_def tr Let_def)
  have "t_coords (traceLoop ?bin 10 10 55 offsetX offsetY (traceInit 55)) =
          [(5 + offsetX, 5 + offsetY)]"
    using traceLoop_single_step [of ?bin 10 10 55 offsetX offsetY] nxt by (simp add: xy)
  then show ?thesis
    by (simp add: maskToGeoJSON_def start Let_def)
qed

theorem maskToGeoJSON_single_pixel_witness:
  "maskToGeoJSON (replicate 55 0 @ [255] @ replicate 44 0) 10 10 3 (- 2) =
     FeatureCollection [Feature (Polygon [[(8, 3)]])]"
proof -
  have "\<forall>i<100. ((replicate 55 0 @ [255] @ replicate 44 (0::byte)) ! i \<noteq> 0) = (i = 55)"
    by (auto simp: nth_append nth_Cons split: nat.splits)
  then show ?thesis
    using maskToGeoJSON_single_pixel [of "replicate 55 0 @ [255] @ replicate 44 0" 3 "- 2"]
    by simp
qed

lemma square_bin: "binOf square_mask 4 4 = [0, 0, 0, 0,  0, 1, 1, 0,  0, 1, 1, 0,  0, 0, 0, 0]"
  by (simp add: binOf_def square_mask_def js_get_def js_truthy_def upt_conv_Cons)

lemma square_start: "findStart [0, 0, 0, 0,  0, 1, 1, 0,  0, 1, 1, 0,  0, 0, 0, 0] = Some 5"
  by (simp add: findStart_def js_get_def js_truthy_def upt_conv_Cons)

lemma square_trace:
  "t_coords (traceLoop [0, 0, 0, 0,  0, 1, 1, 0,  0, 1, 1, 0,  0, 0, 0, 0] 4 4 5 0 0
      (traceInit 5)) =
   [(1, 1), (2, 1), (2, 2), (1, 2), (1, 1), (2, 1), (2, 2), (1, 2),
    (1, 1), (2, 1), (2, 2), (1, 2), (1, 1), (2, 1), (2, 2), (1, 2),
    (1, 1), (2, 1), (2, 2), (1, 2), (1, 1), (2, 1), (2, 2), (1, 2)]"
  by (simp add: traceInit_def traceLoop.simps traceStep_def idxToXY_def Let_def js_get_def
      js_truthy_def upt_conv_Cons directions_def)

lemma square_ring:
  "maskToGeoJSON square_mask 4 4 0 0 =
     FeatureCollection [Feature (Polygon
       [[(1, 1), (2, 1), (2, 2), (1, 2), (1, 1), (2, 1), (2, 2), (1, 2),
         (1, 1), (2, 1), (2, 2), (1, 2), (1, 1), (2, 1), (2, 2), (1, 2),
         (1, 1), (2, 1), (2, 2), (1, 2), (1, 1), (2, 1), (2, 2), (1, 2)]])]"
  by (simp add: maskToGeoJSON_def square_bin square_start square_trace Let_def)

text \<open>
  Claim C4, as stated, fails: the ring of the 2 by 2 square has 24 points and repeats
  every boundary pixel, so it is not the four boundary pixels once each.
\<close>

theorem maskToGeoJSON_square_counterexample:
  "maskToGeoJSON square_mask 4 4 0 0 \<noteq>
     FeatureCollection [Feature (Polygon [[(1, 1), (2, 1), (2, 2), (1, 2)]])] \<and>
   length (ring_of (maskToGeoJSON square_mask 4 4 0 0)) = 24 \<and>
   \<not> distinct (ring_of (maskToGeoJSON square_mask 4 4 0 0))"
  by (simp add: square_ring ring_of_def)

text \<open>
  Claim C4, amended.  For the 4 by 4 mask with the 2 by 2 square at rows and columns 1..2
  and offset \<open>(0,0)\<close> the result is one polygon with a single ring of 24 points: the four
  boundary pixels \<open>(1,1), (2,1), (2,2), (1,2)\<close> in clockwise order starting at \<open>(1,1)\<close>,
  six times over; these four pixels are all the points of the ring.
\<close>

theorem maskToGeoJSON_square_ring:
  "maskToGeoJSON square_mask 4 4 0 0 =
     FeatureCollection [Feature (Polygon
       [concat (replicate 6 [(1, 1), (2, 1), (2, 2), (1, 2)])])] \<and>
   set (ring_of (maskToGeoJSON square_mask 4 4 0 0)) = {(1, 1), (2, 1), (2, 2), (1, 2)}"
proof -
  have rep: "replicate 6 x = [x, x, x, x, x, x]" for x :: "(int \<times> int) list"
    by (simp add: eval_nat_numeral)
  show ?thesis
    by (auto simp: square_ring ring_of_def rep)
qed

text \<open>
  The search tries all eight directions whatever the previous direction is, so it fails
  exactly when no neighbour of the current pixel is an in-bounds foreground pixel.
\<close>

lemma findNext_None_iff:
  "findNext bin width height cx cy prevDir ds = None \<longleftrightarrow>
     (\<forall>d \<in> set ds.
        \<not> (cx + fst (directions ! ((prevDir + 7 + d) mod 8)) \<ge> 0
           \<and> cx + fst (directions ! ((prevDir + 7 + d) mod 8)) < int width
           \<and> cy + snd (directions ! ((prevDir + 7 + d) mod 8)) \<ge> 0
           \<and> cy + snd (directions ! ((prevDir + 7 + d) mod 8)) < int height
           \<and> js_truthy (js_get bin (nat ((cy + snd (directions ! ((prevDir + 7 + d) mod 8)))
                  * int width + (cx + fst (directions ! ((prevDir + 7 + d) mod 8))))))))"
  by (induction ds) (simp_all add: Let_def)

lemma all_directions_tried:
  "(\<forall>d \<in> set [0..<8]. P ((prevDir + 7 + d) mod 8)) \<longleftrightarrow> (\<forall>di<8. P (di::nat))"
proof
  assume a: "\<forall>d \<in> set [0..<8]. P ((prevDir + 7 + d) mod 8)"
  define r where "r = (prevDir + 7) mod 8"
  have r: "r < 8" by (simp add: r_def)
  show "\<forall>di<8. P di"
  proof (intro allI impI)
    fix di :: nat assume di: "di < 8"
    let ?d = "(di + 8 - r) mod 8"
    have "(prevDir + 7 + ?d) mod 8 = (r + ?d) mod 8"
      unfolding r_def by (rule mod_add_left_eq [symmetric])
    also have "\<dots> = (r + (di + 8 - r)) mod 8" by (rule mod_add_right_eq)
    also have "r + (di + 8 - r) = di + 8" using r by simp
    also have "(di + 8) mod 8 = di" using di by simp
    finally have e: "(prevDir + 7 + ?d) mod 8 = di" .
    have "?d < 8" by simp
    then have "?d \<in> set [0..<8]" by (simp only: set_upt atLeastLessThan_iff le0 simp_thms)
    with a have "P ((prevDir + 7 + ?d) mod 8)" by (rule bspec)
    then show "P di" by (simp only: e)
  qed
next
  assume b: "\<forall>di<8. P di"
  show "\<forall>d \<in> set [0..<8]. P ((prevDir + 7 + d) mod 8)"
  proof
    fix d
    have "(prevDir + 7 + d) mod 8 < 8" by simp
    with b show "P ((prevDir + 7 + d) mod 8)" by blast
  qed
qed

lemma noNeighbour_iff:
  "noNeighbour bin width height s \<longleftrightarrow>
     (\<forall>di<8.
        \<not> (fst (idxToXY width (t_curr s)) + fst (directions ! di) \<ge> 0
           \<and> fst (idxToXY width (t_curr s)) + fst (directions ! di) < int width
           \<and> snd (idxToXY width (t_curr s)) + snd (directions ! di) \<ge> 0
           \<and> snd (idxToXY width (t_curr s)) + snd (directions ! di) < int height
           \<and> js_truthy (js_get bin (nat ((snd (idxToXY width (t_curr s)) + snd (directions ! di))
                  * int width + (fst (idxToXY width (t_curr s)) + fst (directions ! di)))))))"
  unfolding noNeighbour_def findNext_None_iff
  by (rule all_directions_tried)

lemma traceStep_guard:
  "t_loopGuard (traceStep bin width height start ox oy s) = t_loopGuard s"
  by (simp add: traceStep_def Let_def split: option.splits)

lemma traceStep_coords:
  "length (t_coords (traceStep bin width height start ox oy s)) = Suc (length (t_coords s))"
  by (simp add: traceStep_def Let_def split: option.splits)

lemma traceStep_done:
  assumes "\<not> t_done s" "t_done (traceStep bin width height start ox oy s)"
  shows "noNeighbour bin width height (traceStep bin width height start ox oy s)
         \<or> closedLoop start (traceStep bin width height start ox oy s)"
  using assms
  by (auto simp: traceStep_def Let_def noNeighbour_def closedLoop_def
      split: option.splits if_splits)

lemma traceLoop_invariant:
  assumes "t_loopGuard s \<le> 1000000" "length (t_coords s) = t_loopGuard s"
    and "t_done s \<longrightarrow> noNeighbour bin width height s \<or> closedLoop start s"
  shows "length (t_coords (traceLoop bin width height start ox oy s)) \<le> 1000000 \<and>
         (if t_done (traceLoop bin width height start ox oy s)
          then noNeighbour bin width height (traceLoop bin width height start ox oy s)
               \<or> closedLoop start (traceLoop bin width height start ox oy s)
          else length (t_coords (traceLoop bin width height start ox oy s)) = 1000000)"
  using assms
proof (induction bin width height start ox oy s rule: traceLoop.induct)
  case (1 bin width height start ox oy s)
  show ?case
  proof (cases "t_done s")
    case True
    then show ?thesis using "1.prems" by (subst (1 2 3 4 5) traceLoop.simps) simp
  next
    case nd: False
    show ?thesis
    proof (cases "t_loopGuard s < 1000000")
      case False
      then show ?thesis using nd "1.prems" by (subst (1 2 3 4 5) traceLoop.simps) simp
    next
      case lt: True
      let ?s' = "traceStep bin width height start ox oy (s\<lparr>t_loopGuard := t_loopGuard s + 1\<rparr>)"
      have g: "t_loopGuard ?s' \<le> 1000000" using lt by (simp add: traceStep_guard)
      have c: "length (t_coords ?s') = t_loopGuard ?s'"
        using "1.prems"(2) by (simp add: traceStep_guard traceStep_coords)
      have d: "t_done ?s' \<longrightarrow> noNeighbour bin width height ?s' \<or> closedLoop start ?s'"
        using traceStep_done [of "s\<lparr>t_loopGuard := t_loopGuard s + 1\<rparr>"] nd by simp
      have eq: "traceLoop bin width height start ox oy s
                  = traceLoop bin width height start ox oy ?s'"
        using nd lt by (subst traceLoop.simps) simp
      show ?thesis
        unfolding eq using "1.IH" [OF nd lt g c d] .
    qed
  qed
qed

text \<open>
  The walk on \<open>hook_mask\<close>: from the start pixel 0 to pixel 4, then for ever through
  the pixels 5, 7, 6, 4, always finding a neighbour and never reaching the start again.
\<close>

lemma hook_bin: "binOf hook_mask 3 3 = [1, 0, 0,  0, 1, 1,  1, 1, 0]"
  by (simp add: binOf_def hook_mask_def js_get_def js_truthy_def upt_conv_Cons)

lemma hook_start: "findStart [1, 0, 0,  0, 1, 1,  1, 1, 0] = Some 0"
  by (simp add: findStart_def js_get_def js_truthy_def upt_conv_Cons)

lemma hook_next:
  "findNext [1, 0, 0,  0, 1, 1,  1, 1, 0] 3 3 0 0 0 [0..<8] = Some (4, 5)"
  "findNext [1, 0, 0,  0, 1, 1,  1, 1, 0] 3 3 1 1 5 [0..<8] = Some (5, 4)"
  "findNext [1, 0, 0,  0, 1, 1,  1, 1, 0] 3 3 2 1 4 [0..<8] = Some (7, 7)"
  "findNext [1, 0, 0,  0, 1, 1,  1, 1, 0] 3 3 1 2 7 [0..<8] = Some (6, 0)"
  "findNext [1, 0, 0,  0, 1, 1,  1, 1, 0] 3 3 0 2 0 [0..<8] = Some (4, 3)"
  "findNext [1, 0, 0,  0, 1, 1,  1, 1, 0] 3 3 1 1 3 [0..<8] = Some (5, 4)"
  by (simp_all add: Let_def js_get_def js_truthy_def upt_conv_Cons directions_def)

lemma hook_xy:
  "idxToXY 3 0 = (0, 0)" "idxToXY 3 4 = (1, 1)" "idxToXY 3 5 = (2, 1)"
  "idxToXY 3 7 = (1, 2)" "idxToXY 3 6 = (0, 2)"
  by (simp_all add: idxToXY_def)

lemma hook_step_at:
  assumes "findNext bin width height (fst (idxToXY width (t_curr s)))
             (snd (idxToXY width (t_curr s))) (t_prevDir s) [0..<8] = Some (ni, di)"
    and "ni \<noteq> start" "\<not> t_done s"
  shows "t_curr (traceStep bin width height start ox oy s) = ni \<and>
         t_prevDir (traceStep bin width height start ox oy s) = di \<and>
         \<not> t_done (traceStep bin width height start ox oy s)"
  using assms by (simp add: traceStep_def Let_def)

lemma hook_step:
  assumes "(t_curr s, t_prevDir s) \<in> {(0, 0), (4, 5), (5, 4), (7, 7), (6, 0), (4, 3)}"
    and "\<not> t_done s"
  shows "(t_curr (traceStep [1, 0, 0,  0, 1, 1,  1, 1, 0] 3 3 0 0 0 s),
          t_prevDir (traceStep [1, 0, 0,  0, 1, 1,  1, 1, 0] 3 3 0 0 0 s))
            \<in> {(4, 5), (5, 4), (7, 7), (6, 0), (4, 3)}
         \<and> \<not> t_done (traceStep [1, 0, 0,  0, 1, 1,  1, 1, 0] 3 3 0 0 0 s)"
proof -
  have "\<exists>ni di. findNext [1, 0, 0,  0, 1, 1,  1, 1, 0] 3 3 (fst (idxToXY 3 (t_curr s)))
             (snd (idxToXY 3 (t_curr s))) (t_prevDir s) [0..<8] = Some (ni, di)
          \<and> (ni, di) \<in> {(4, 5), (5, 4), (7, 7), (6, 0), (4, 3)}"
    using assms(1) by (auto simp: hook_xy hook_next)
  then obtain ni di where
    nx: "findNext [1, 0, 0,  0, 1, 1,  1, 1, 0] 3 3 (fst (idxToXY 3 (t_curr s)))
             (snd (idxToXY 3 (t_curr s))) (t_prevDir s) [0..<8] = Some (ni, di)"
    and mem: "(ni, di) \<in> {(4, 5), (5, 4), (7, 7), (6, 0), (4, 3)}"
    by blast
  from mem have "ni \<noteq> 0" by auto
  from hook_step_at [OF nx this assms(2)] mem show ?thesis by simp
qed

lemma hook_loop:
  assumes "(t_curr s, t_prevDir s) \<in> {(0, 0), (4, 5), (5, 4), (7, 7), (6, 0), (4, 3)}"
    and "\<not> t_done s" "t_loopGuard s \<le> 1000000"
  shows "length (t_coords (traceLoop [1, 0, 0,  0, 1, 1,  1, 1, 0] 3 3 0 0 0 s)) =
           length (t_coords s) + (1000000 - t_loopGuard s)"
  using assms
proof (induction "1000000 - t_loopGuard s" arbitrary: s)
  case 0
  then show ?case by (subst traceLoop.simps) simp
next
  case (Suc n)
  let ?s' = "traceStep [1, 0, 0,  0, 1, 1,  1, 1, 0] 3 3 0 0 0 (s\<lparr>t_loopGuard := t_loopGuard s + 1\<rparr>)"
  have lt: "t_loopGuard s < 1000000" using Suc.hyps(2) by simp
  have st: "(t_curr ?s', t_prevDir ?s') \<in> {(4, 5), (5, 4), (7, 7), (6, 0), (4, 3)} \<and> \<not> t_done ?s'"
    using hook_step [of "s\<lparr>t_loopGuard := t_loopGuard s + 1\<rparr>"] Suc.prems by simp
  have g: "t_loopGuard ?s' = t_loopGuard s + 1" by (simp add: traceStep_guard)
  have "length (t_coords (traceLoop [1, 0, 0,  0, 1, 1,  1, 1, 0] 3 3 0 0 0 ?s')) =
          length (t_coords ?s') + (1000000 - t_loopGuard ?s')"
  proof (rule Suc.hyps(1))
    show "n = 1000000 - t_loopGuard ?s'" using Suc.hyps(2) g by simp
    show "(t_curr ?s', t_prevDir ?s') \<in> {(0, 0), (4, 5), (5, 4), (7, 7), (6, 0), (4, 3)}"
      using st by auto
    show "\<not> t_done ?s'" using st by simp
    show "t_loopGuard ?s' \<le> 1000000" using lt g by simp
  qed
  moreover have "traceLoop [1, 0, 0,  0, 1, 1,  1, 1, 0] 3 3 0 0 0 s =
      traceLoop [1, 0, 0,  0, 1, 1,  1, 1, 0] 3 3 0 0 0 ?s'"
    using Suc.prems(2) lt by (subst traceLoop.simps) simp
  ultimately show ?case
    using lt g by (simp add: traceStep_coords)
qed

lemma hook_ring_length: "length (ring_of (maskToGeoJSON hook_mask 3 3 0 0)) = 1000000"
  using hook_loop [of "traceInit 0"]
  by (simp add: maskToGeoJSON_def hook_bin hook_start Let_def ring_of_def traceInit_def)

text \<open>
  Claim C6, as stated, fails: on the 3 by 3 mask \<open>hook_mask\<close> the loop runs its full
  1000000 iterations, one ring point each, far beyond any multiple of width times height.
\<close>

theorem traceLoop_ceiling_counterexample:
  "length (ring_of (maskToGeoJSON hook_mask 3 3 0 0)) = 1000000 \<and>
   \<not> length (ring_of (maskToGeoJSON hook_mask 3 3 0 0)) \<le> 1000 * (3 * 3)"
  by (simp add: hook_ring_length)

lemma traceLoop_done:
  "t_done s \<Longrightarrow> traceLoop bin width height start ox oy s = s"
  by (subst traceLoop.simps) simp

lemma traceLoop_ceiling:
  "\<not> t_done s \<Longrightarrow> 1000000 \<le> t_loopGuard s \<Longrightarrow>
   traceLoop bin width height start ox oy s = s\<lparr>t_loopGuard := t_loopGuard s + 1\<rparr>"
  by (subst traceLoop.simps) simp

lemma traceLoop_iterate:
  "\<not> t_done s \<Longrightarrow> t_loopGuard s < 1000000 \<Longrightarrow>
   traceLoop bin width height start ox oy s =
     traceLoop bin width height start ox oy
       (traceStep bin width height start ox oy (s\<lparr>t_loopGuard := t_loopGuard s + 1\<rparr>))"
  by (subst traceLoop.simps) simp

lemma traceStep_noNeighbour:
  assumes "noNeighbour bin width height s"
  shows "t_done (traceStep bin width height start ox oy (s\<lparr>t_loopGuard := g\<rparr>)) \<and>
         t_coords (traceStep bin width height start ox oy (s\<lparr>t_loopGuard := g\<rparr>)) =
           t_coords s @ [(fst (idxToXY width (t_curr s)) + ox,
                          snd (idxToXY width (t_curr s)) + oy)]"
  using assms by (auto simp: noNeighbour_def traceStep_def Let_def)

lemma traceStep_closed:
  "closedLoop start (traceStep bin width height start ox oy s) \<Longrightarrow>
   t_done (traceStep bin width height start ox oy s)"
  by (auto simp: closedLoop_def traceStep_def Let_def split: option.splits)

lemma traceStep_goes_on:
  assumes "\<not> t_done s" "\<not> noNeighbour bin width height s"
    and "\<not> closedLoop start (traceStep bin width height start ox oy (s\<lparr>t_loopGuard := g\<rparr>))"
  shows "\<not> t_done (traceStep bin width height start ox oy (s\<lparr>t_loopGuard := g\<rparr>))"
  using assms
  by (auto simp: noNeighbour_def closedLoop_def traceStep_def Let_def
      split: option.splits if_splits)

text \<open>
  Claim C6, amended.  The loop of \<open>maskToGeoJSON\<close> ends on every mask, of every width
  and height (\<open>traceLoop\<close> is a total function: each iteration counts the guard up towards
  the fixed ceiling).  From its start state it collects one point per iteration and at
  most 1000000 points, and it ends either with \<open>done\<close> set, after a search that found no
  in-bounds foreground neighbour or with the walk back at the start pixel with more than
  20 points, or after exactly the 1000000 iterations of the fixed ceiling, which does not
  depend on width or height.  At every state \<open>s\<close> where the loop is still running: if
  the search from the current pixel finds no in-bounds foreground neighbour, the loop stops
  with this iteration, having added the current pixel; if the iteration leaves the walk
  at the start pixel with more than 20 points, the loop stops with this iteration; in
  every other case the iteration does not set \<open>done\<close> and the loop goes on; and when the
  guard has reached 1000000 the loop stops without another iteration.
\<close>

theorem traceLoop_stops:
  "(length (t_coords (traceLoop bin width height start offsetX offsetY (traceInit start)))
     \<le> 1000000 \<and>
    (if t_done (traceLoop bin width height start offsetX offsetY (traceInit start))
     then noNeighbour bin width height
            (traceLoop bin width height start offsetX offsetY (traceInit start))
          \<or> closedLoop start
            (traceLoop bin width height start offsetX offsetY (traceInit start))
     else length (t_coords (traceLoop bin width height start offsetX offsetY (traceInit start)))
            = 1000000)) \<and>
   (\<not> t_done s \<and> t_loopGuard s < 1000000 \<and> noNeighbour bin width height s \<longrightarrow>
      traceLoop bin width height start offsetX offsetY s =
        traceStep bin width height start offsetX offsetY (s\<lparr>t_loopGuard := t_loopGuard s + 1\<rparr>) \<and>
      t_done (traceLoop bin width height start offsetX offsetY s) \<and>
      t_coords (traceLoop bin width height start offsetX offsetY s) =
        t_coords s @ [(fst (idxToXY width (t_curr s)) + offsetX,
                       snd (idxToXY width (t_curr s)) + offsetY)]) \<and>
   (\<not> t_done s \<and> t_loopGuard s < 1000000 \<and>
    closedLoop start
      (traceStep bin width height start offsetX offsetY (s\<lparr>t_loopGuard := t_loopGuard s + 1\<rparr>))
      \<longrightarrow>
      traceLoop bin width height start offsetX offsetY s =
        traceStep bin width height start offsetX offsetY (s\<lparr>t_loopGuard := t_loopGuard s + 1\<rparr>) \<and>
      t_done (traceLoop bin width height start offsetX offsetY s)) \<and>
   (\<not> t_done s \<and> t_loopGuard s < 1000000 \<and> \<not> noNeighbour bin width height s \<and>
    \<not> closedLoop start
      (traceStep bin width height start offsetX offsetY (s\<lparr>t_loopGuard := t_loopGuard s + 1\<rparr>))
      \<longrightarrow>
      \<not> t_done (traceStep bin width height start offsetX offsetY
                  (s\<lparr>t_loopGuard := t_loopGuard s + 1\<rparr>)) \<and>
      traceLoop bin width height start offsetX offsetY s =
        traceLoop bin width height start offsetX offsetY
          (traceStep bin width height start offsetX offsetY
             (s\<lparr>t_loopGuard := t_loopGuard s + 1\<rparr>))) \<and>
   (\<not> t_done s \<and> 1000000 \<le> t_loopGuard s \<longrightarrow>
      traceLoop bin width height start offsetX offsetY s =
        s\<lparr>t_loopGuard := t_loopGuard s + 1\<rparr>)"
proof (intro conjI impI)
  let ?F = "traceLoop bin width height start offsetX offsetY (traceInit start)"
  have inv: "length (t_coords ?F) \<le> 1000000 \<and>
    (if t_done ?F then noNeighbour bin width height ?F \<or> closedLoop start ?F
     else length (t_coords ?F) = 1000000)"
    by (rule traceLoop_invariant) (simp_all add: traceInit_def)
  from inv show "length (t_coords ?F) \<le> 1000000" by (rule conjunct1)
  from inv show "if t_done ?F then noNeighbour bin width height ?F \<or> closedLoop start ?F
     else length (t_coords ?F) = 1000000" by (rule conjunct2)
next
  let ?s' = "traceStep bin width height start offsetX offsetY
               (s\<lparr>t_loopGuard := t_loopGuard s + 1\<rparr>)"
  assume a: "\<not> t_done s \<and> t_loopGuard s < 1000000 \<and> noNeighbour bin width height s"
  then have st: "t_done ?s'" "t_coords ?s' =
      t_coords s @ [(fst (idxToXY width (t_curr s)) + offsetX,
                     snd (idxToXY width (t_curr s)) + offsetY)]"
    using traceStep_noNeighbour [of bin width height s start offsetX offsetY] by simp_all
  have eq: "traceLoop bin width height start offsetX offsetY s = ?s'"
    using a st(1) by (simp add: traceLoop_iterate traceLoop_done)
  show "traceLoop bin width height start offsetX offsetY s = ?s'" by (rule eq)
  show "t_done (traceLoop bin width height start offsetX offsetY s)"
    unfolding eq by (rule st(1))
  show "t_coords (traceLoop bin width height start offsetX offsetY s) =
      t_coords s @ [(fst (idxToXY width (t_curr s)) + offsetX,
                     snd (idxToXY width (t_curr s)) + offsetY)]"
    unfolding eq by (rule st(2))
next
  let ?s' = "traceStep bin width height start offsetX offsetY
               (s\<lparr>t_loopGuard := t_loopGuard s + 1\<rparr>)"
  assume a: "\<not> t_done s \<and> t_loopGuard s < 1000000 \<and> closedLoop start ?s'"
  then have st: "t_done ?s'" by (simp add: traceStep_closed)
  have eq: "traceLoop bin width height start offsetX offsetY s = ?s'"
    using a st by (simp add: traceLoop_iterate traceLoop_done)
  show "traceLoop bin width height start offsetX offsetY s = ?s'" by (rule eq)
  show "t_done (traceLoop bin width height start offsetX offsetY s)"
    unfolding eq by (rule st)
next
  let ?s' = "traceStep bin width height start offsetX offsetY
               (s\<lparr>t_loopGuard := t_loopGuard s + 1\<rparr>)"
  assume a: "\<not> t_done s \<and> t_loopGuard s < 1000000 \<and> \<not> noNeighbour bin width height s \<and>
    \<not> closedLoop start ?s'"
  then show "\<not> t_done ?s'"
    using traceStep_goes_on [of s bin width height start offsetX offsetY] by blast
  from a show "traceLoop bin width height start offsetX offsetY s =
        traceLoop bin width height start offsetX offsetY ?s'"
    by (simp add: traceLoop_iterate)
next
  assume "\<not> t_done s \<and> 1000000 \<le> t_loopGuard s"
  then show "traceLoop bin width height start offsetX offsetY s =
        s\<lparr>t_loopGuard := t_loopGuard s + 1\<rparr>"
    by (simp add: traceLoop_ceiling)
qed

theorem traceLoop_stops_witness:
  "t_coords (traceLoop [1] 1 1 0 3 (- 2) (traceInit 0)) = [(3, - 2)] \<and>
   t_done (traceLoop [1] 1 1 0 3 (- 2) (traceInit 0)) \<and>
   t_done (traceLoop [0, 0, 0, 0,  0, 1, 1, 0,  0, 1, 1, 0,  0, 0, 0, 0] 4 4 5 0 0
      \<lparr>t_curr = 9, t_prevDir = 0, t_coords = replicate 23 (0, 0), t_done = False,
       t_loopGuard = 23\<rparr>) \<and>
   t_curr (traceLoop [0, 0, 0, 0,  0, 1, 1, 0,  0, 1, 1, 0,  0, 0, 0, 0] 4 4 5 0 0
      \<lparr>t_curr = 9, t_prevDir = 0, t_coords = replicate 23 (0, 0), t_done = False,
       t_loopGuard = 23\<rparr>) = 5 \<and>
   traceLoop [0, 0, 0, 0,  0, 1, 1, 0,  0, 1, 1, 0,  0, 0, 0, 0] 4 4 5 0 0 (traceInit 5) =
     traceLoop [0, 0, 0, 0,  0, 1, 1, 0,  0, 1, 1, 0,  0, 0, 0, 0] 4 4 5 0 0
       \<lparr>t_curr = 6, t_prevDir = 4, t_coords = [(1, 1)], t_done = False, t_loopGuard = 1\<rparr> \<and>
   traceLoop [1] 1 1 0 0 0
      \<lparr>t_curr = 0, t_prevDir = 0, t_coords = [], t_done = False, t_loopGuard = 1000000\<rparr> =
      \<lparr>t_curr = 0, t_prevDir = 0, t_coords = [], t_done = False, t_loopGuard = 1000001\<rparr>"
proof -
  let ?sq = "[0, 0, 0, 0,  0, 1, 1, 0,  0, 1, 1, 0,  0, 0, 0, 0] :: byte list"
  let ?s23 = "\<lparr>t_curr = 9, t_prevDir = 0, t_coords = replicate 23 (0, 0), t_done = False,
       t_loopGuard = 23\<rparr>"
  let ?top = "\<lparr>t_curr = 0, t_prevDir = 0, t_coords = [], t_done = False,
       t_loopGuard = 1000000\<rparr>"
  have h1: "\<not> t_done (traceInit 0) \<and> t_loopGuard (traceInit 0) < 1000000 \<and>
            noNeighbour [1] 1 1 (traceInit 0)"
    by (simp add: traceInit_def noNeighbour_def idxToXY_def upt_conv_Cons directions_def Let_def)
  have c1: "t_done (traceLoop [1] 1 1 0 3 (- 2) (traceInit 0)) \<and>
      t_coords (traceLoop [1] 1 1 0 3 (- 2) (traceInit 0)) =
        t_coords (traceInit 0) @ [(fst (idxToXY 1 (t_curr (traceInit 0))) + 3,
                                   snd (idxToXY 1 (t_curr (traceInit 0))) + (- 2))]"
    using traceLoop_stops [of "[1]" 1 1 0 3 "- 2" "traceInit 0"] h1 by blast
  have r1: "t_coords (traceLoop [1] 1 1 0 3 (- 2) (traceInit 0)) = [(3, - 2)]"
           "t_done (traceLoop [1] 1 1 0 3 (- 2) (traceInit 0))"
    using c1 by (simp_all add: traceInit_def idxToXY_def)
  have step23: "traceStep ?sq 4 4 5 0 0 (?s23\<lparr>t_loopGuard := t_loopGuard ?s23 + 1\<rparr>) =
      \<lparr>t_curr = 5, t_prevDir = 2, t_coords = replicate 23 (0, 0) @ [(1, 2)], t_done = True,
       t_loopGuard = 24\<rparr>"
    by (simp add: traceStep_def idxToXY_def Let_def js_get_def js_truthy_def upt_conv_Cons
        directions_def)
  have h2: "\<not> t_done ?s23 \<and> t_loopGuard ?s23 < 1000000 \<and>
      closedLoop 5 (traceStep ?sq 4 4 5 0 0 (?s23\<lparr>t_loopGuard := t_loopGuard ?s23 + 1\<rparr>))"
    unfolding step23 by (simp add: closedLoop_def)
  have c2: "traceLoop ?sq 4 4 5 0 0 ?s23 =
        traceStep ?sq 4 4 5 0 0 (?s23\<lparr>t_loopGuard := t_loopGuard ?s23 + 1\<rparr>) \<and>
      t_done (traceLoop ?sq 4 4 5 0 0 ?s23)"
    using traceLoop_stops [of ?sq 4 4 5 0 0 ?s23] h2 by blast
  have r2: "t_done (traceLoop ?sq 4 4 5 0 0 ?s23)" "t_curr (traceLoop ?sq 4 4 5 0 0 ?s23) = 5"
    using c2 unfolding step23 by simp_all
  have step0: "traceStep ?sq 4 4 5 0 0
                 ((traceInit 5)\<lparr>t_loopGuard := t_loopGuard (traceInit 5) + 1\<rparr>) =
      \<lparr>t_curr = 6, t_prevDir = 4, t_coords = [(1, 1)], t_done = False, t_loopGuard = 1\<rparr>"
    by (simp add: traceInit_def traceStep_def idxToXY_def Let_def js_get_def js_truthy_def
        upt_conv_Cons directions_def)
  have h3: "\<not> t_done (traceInit 5) \<and> t_loopGuard (traceInit 5) < 1000000 \<and>
      \<not> noNeighbour ?sq 4 4 (traceInit 5) \<and>
      \<not> closedLoop 5 (traceStep ?sq 4 4 5 0 0
                         ((traceInit 5)\<lparr>t_loopGuard := t_loopGuard (traceInit 5) + 1\<rparr>))"
    unfolding step0
    by (simp add: traceInit_def noNeighbour_def closedLoop_def idxToXY_def Let_def js_get_def
        js_truthy_def upt_conv_Cons directions_def)
  have c3: "traceLoop ?sq 4 4 5 0 0 (traceInit 5) =
      traceLoop ?sq 4 4 5 0 0
        (traceStep ?sq 4 4 5 0 0
           ((traceInit 5)\<lparr>t_loopGuard := t_loopGuard (traceInit 5) + 1\<rparr>))"
    using traceLoop_stops [of ?sq 4 4 5 0 0 "traceInit 5"] h3 by blast
  have r3: "traceLoop ?sq 4 4 5 0 0 (traceInit 5) =
     traceLoop ?sq 4 4 5 0 0
       \<lparr>t_curr = 6, t_prevDir = 4, t_coords = [(1, 1)], t_done = False, t_loopGuard = 1\<rparr>"
    using c3 unfolding step0 .
  have h4: "\<not> t_done ?top \<and> 1000000 \<le> t_loopGuard ?top" by simp
  have c4: "traceLoop [1] 1 1 0 0 0 ?top = ?top\<lparr>t_loopGuard := t_loopGuard ?top + 1\<rparr>"
    using traceLoop_stops [of "[1]" 1 1 0 0 0 ?top] h4 by blast
  have r4: "traceLoop [1] 1 1 0 0 0 ?top =
      \<lparr>t_curr = 0, t_prevDir = 0, t_coords = [], t_done = False, t_loopGuard = 1000001\<rparr>"
    using c4 by simp
  show ?thesis
    using r1 r2 r3 r4 by (intro conjI)
qed

section \<open>The input tensor: claim C5\<close>

lemma fill_pixels_length:
  "length (fold (\<lambda>p fd. fd[p * 3 + 0 := a p, p * 3 + 1 := b p, p * 3 + 2 := c p])
             [0..<n] fd0) = length fd0"
  by (induction n) simp_all

lemma fill_pixels_nth:
  "i < length fd0 \<Longrightarrow>
   fold (\<lambda>p fd. fd[p * 3 + 0 := a p, p * 3 + 1 := b p, p * 3 + 2 := c p]) [0..<n] fd0 ! i =
     (if i < n * 3
      then (if i mod 3 = 0 then a (i div 3) else if i mod 3 = 1 then b (i div 3)
            else c (i div 3))
      else fd0 ! i)"
proof (induction n)
  case 0
  then show ?case by simp
next
  case (Suc n)
  let ?prev = "fold (\<lambda>p fd. fd[p * 3 + 0 := a p, p * 3 + 1 := b p, p * 3 + 2 := c p])
                 [0..<n] fd0"
  have len: "i < length ?prev" using Suc.prems by (simp only: fill_pixels_length)
  consider "i < n * 3" | "i = n * 3" | "i = n * 3 + 1" | "i = n * 3 + 2" | "n * 3 + 3 \<le> i"
    by linarith
  then show ?case
  proof cases
    case 1
    then show ?thesis using Suc len by simp
  next
    case 2
    then show ?thesis using len by simp
  next
    case 3
    then have "i mod 3 = 1" "i div 3 = n" by presburger+
    then show ?thesis using 3 len by simp
  next
    case 4
    then have "i mod 3 = 2" "i div 3 = n" by presburger+
    then show ?thesis using 4 len by simp
  next
    case 5
    then show ?thesis using Suc len by simp
  qed
qed

text \<open>
  The layout the loop of lines 74-78 produces: the three channels of pixel \<open>p\<close> sit next
  to each other at \<open>3 * p\<close>, \<open>3 * p + 1\<close>, \<open>3 * p + 2\<close>.
\<close>

lemma floatTensorData_interleaved:
  assumes "length imgData = S * S * 4" "p < S * S" "k < 3"
  shows "floatTensorData S imgData ! (p * 3 + k) =
           Num (of_nat (unat (imgData ! (p * 4 + k))) / 255)"
proof -
  have n: "(length imgData + 3) div 4 = S * S" using assms(1) by simp
  have i: "p * 3 + k < S * S * 3" using assms(2,3) by simp
  have dm: "(p * 3 + k) div 3 = p" "(p * 3 + k) mod 3 = k" using assms(3) by simp_all
  have k: "k = 0 \<or> k = 1 \<or> k = 2" using assms(3) by linarith
  have rd: "p * 4 + k < length imgData" using assms by simp
  have "floatTensorData S imgData ! (p * 3 + k) = chan (js_get imgData (p * 4 + k))"
    unfolding floatTensorData_def n
    using fill_pixels_nth [of "p * 3 + k" "replicate (S * S * 3) (Num 0)"
        "\<lambda>p. chan (js_get imgData (p * 4))" "\<lambda>p. chan (js_get imgData (p * 4 + 1))"
        "\<lambda>p. chan (js_get imgData (p * 4 + 2))" "S * S"] i k
    by (auto simp: dm)
  then show ?thesis using rd by (simp add: js_get_def chan_def)
qed

lemma red_image_length: "length red_image = MODEL_SIZE * MODEL_SIZE * 4"
  by (simp add: red_image_def)

lemma red_image_nth:
  "i < MODEL_SIZE * MODEL_SIZE * 4 \<Longrightarrow> red_image ! i = [255, 0, 0, 255] ! (i mod 4)"
  by (simp add: red_image_def)

text \<open>
  Claim C5 on the all-red image of the model size: the buffer starts with red, green and
  blue of pixel 0, that is 1, 0, 0, while the red samples of pixels 0, 1 and 2, which a
  channel-first layout puts there, are 1, 1, 1.
\<close>

theorem floatTensorData_red_image:
  "floatTensorData MODEL_SIZE red_image ! 0 = Num 1 \<and>
   floatTensorData MODEL_SIZE red_image ! 1 = Num 0 \<and>
   floatTensorData MODEL_SIZE red_image ! 2 = Num 0 \<and>
   chan (js_get red_image (0 * 4)) = Num 1 \<and>
   chan (js_get red_image (1 * 4)) = Num 1 \<and>
   chan (js_get red_image (2 * 4)) = Num 1"
proof -
  have p: "(0::nat) < MODEL_SIZE * MODEL_SIZE" by (simp add: MODEL_SIZE_def)
  have r: "red_image ! 0 = 255" "red_image ! Suc 0 = 0" "red_image ! Suc (Suc 0) = 0"
          "red_image ! 4 = 255" "red_image ! 8 = 255"
    by (simp_all add: red_image_nth MODEL_SIZE_def)
  have l: "length red_image = 4194304" by (simp add: red_image_length MODEL_SIZE_def)
  have "floatTensorData MODEL_SIZE red_image ! (0 * 3 + 0) = Num 1"
       "floatTensorData MODEL_SIZE red_image ! (0 * 3 + 1) = Num 0"
       "floatTensorData MODEL_SIZE red_image ! (0 * 3 + 2) = Num 0"
    using floatTensorData_interleaved [OF red_image_length p, of 0]
          floatTensorData_interleaved [OF red_image_length p, of 1]
          floatTensorData_interleaved [OF red_image_length p, of 2]
    by (simp_all add: r)
  moreover have "floatTensorData MODEL_SIZE red_image ! 2 =
      floatTensorData MODEL_SIZE red_image ! Suc (Suc 0)"
    by (simp add: numeral_2_eq_2)
  ultimately show ?thesis by (simp add: js_get_def chan_def l r)
qed

end
